theory Spec2Isabelle
  imports Main
begin

section \<open>The ONSPD processor (onspd\_tools/onspd\_processor.py)\<close>

text \<open>
  A shallow embedding of \<^verbatim>\<open>ONSPDProcessor\<close>: the field-mapping table, the per-row
  extraction of \<^verbatim>\<open>_process_chunk\<close>, the lookup enrichment of
  \<^verbatim>\<open>_add_human_readable_names\<close>, the chunked reading of \<^verbatim>\<open>process_onspd_csv\<close> and
  the directory loop with its statistics of \<^verbatim>\<open>process_onspd_csv_directory\<close>.

  Python exceptions are values of \<open>py_exn\<close>; a function that can raise returns
  \<open>py_exn + 'a\<close> with \<open>Inl\<close> the exception. Dictionaries are maps. What pandas and
  the Python built-ins do (reading a CSV in chunks, \<^verbatim>\<open>float(str)\<close>, \<^verbatim>\<open>int(float)\<close>)
  is not code of the repository: the file reader is modelled by the data it delivers,
  the float operations are a parameter \<open>float_ops\<close>.
\<close>

subsection \<open>Python strings\<close>

text \<open>
  A \<^verbatim>\<open>str\<close> is a list of characters with code points below 256. \<^verbatim>\<open>str.strip()\<close>
  removes the characters \<^verbatim>\<open>str.isspace\<close> accepts from both ends; in that range they are
  U+0009..U+000D, U+001C..U+001F, U+0020, U+0085 and U+00A0. \<^verbatim>\<open>str.lower()\<close> maps
  A..Z and U+00C0..U+00DE (but U+00D7) to the character 32 places later; none of
  these has bit 5 set, so adding 32 sets it.
\<close>

definition py_isspace :: "char \<Rightarrow> bool" where
  "py_isspace c =
     (c \<in> set [CHR 0x09, CHR 0x0A, CHR 0x0B, CHR 0x0C, CHR 0x0D, CHR 0x1C, CHR 0x1D,
               CHR 0x1E, CHR 0x1F, CHR 0x20, CHR 0x85, CHR 0xA0])"

definition py_strip :: "string \<Rightarrow> string" where
  "py_strip s = rev (dropWhile py_isspace (rev (dropWhile py_isspace s)))"

definition py_lower_char :: "char \<Rightarrow> char" where
  "py_lower_char c =
     (let n = (of_char c :: nat) in
      if (65 \<le> n \<and> n \<le> 90) \<or> (192 \<le> n \<and> n \<le> 222 \<and> n \<noteq> 215)
      then (case c of Char b0 b1 b2 b3 b4 b5 b6 b7 \<Rightarrow> Char b0 b1 b2 b3 b4 True b6 b7)
      else c)"

definition py_lower :: "string \<Rightarrow> string" where
  "py_lower s = map py_lower_char s"

text \<open>\<^verbatim>\<open>x.replace(" ", "")\<close>\<close>

definition remove_spaces :: "string \<Rightarrow> string" where
  "remove_spaces x = filter (\<lambda>c. c \<noteq> CHR '' '') x"

text \<open>\<^verbatim>\<open>x.split(" ")\<close>: the pieces between single spaces, empty pieces kept.\<close>

fun split_space :: "string \<Rightarrow> string list" where
  "split_space [] = [[]]"
| "split_space (c # cs) =
     (if c = CHR '' '' then [] # split_space cs
      else (case split_space cs of
              [] \<Rightarrow> [[c]]
            | w # ws \<Rightarrow> (c # w) # ws))"

subsection \<open>Values and exceptions\<close>

datatype py_exn =
    FileNotFoundError
  | ValueError
  | OverflowError
  | TypeError
  | IndexError
  | AttributeError
  | EmptyDataError
  | ParserError
  | OSError

text \<open>
  A Python value as the processed rows and the JSON lookup tables hold it; \<open>'f\<close> is the
  type of floats. A \<^verbatim>\<open>dict\<close> with string keys is an association list read by \<open>map_of\<close>.
\<close>

datatype 'f pyval =
    PNone
  | PBool bool
  | PInt int
  | PFloat 'f
  | PStr string
  | PList "'f pyval list"
  | PDict "(string \<times> 'f pyval) list"

text \<open>
  The built-in float operations the processor calls: \<^verbatim>\<open>float(s)\<close> on a \<^verbatim>\<open>str\<close>
  (\<open>None\<close> when it raises ValueError), \<^verbatim>\<open>int(x)\<close> on a float (it raises ValueError on
  a NaN and OverflowError on an infinity), the NaN test of pandas' \<^verbatim>\<open>isna\<close>, and the
  truth value of a float (\<^verbatim>\<open>x != 0.0\<close>).
\<close>

record 'f float_ops =
  parse_float :: "string \<Rightarrow> 'f option"
  int_of_float :: "'f \<Rightarrow> py_exn + int"
  float_isnan :: "'f \<Rightarrow> bool"
  float_nonzero :: "'f \<Rightarrow> bool"

text \<open>The truth value of a Python value, as \<^verbatim>\<open>if value\<close> tests it.\<close>

fun truthy :: "'f float_ops \<Rightarrow> 'f pyval \<Rightarrow> bool" where
  "truthy fo PNone = False"
| "truthy fo (PBool b) = b"
| "truthy fo (PInt i) = (i \<noteq> 0)"
| "truthy fo (PFloat x) = float_nonzero fo x"
| "truthy fo (PStr s) = (s \<noteq> [])"
| "truthy fo (PList xs) = (xs \<noteq> [])"
| "truthy fo (PDict d) = (d \<noteq> [])"

subsection \<open>The field-mapping table\<close>

text \<open>
  One entry of \<^verbatim>\<open>ONSPD_FIELD_MAPPINGS\<close>. The optional keys \<^verbatim>\<open>type\<close>,
  \<^verbatim>\<open>transform\<close> and \<^verbatim>\<open>depends_on\<close> are options; a transform is a function on
  \<^verbatim>\<open>str\<close> that may raise.
\<close>

record field_def =
  column :: string
  onspd_code :: string
  ftype :: "string option"
  transform :: "(string \<Rightarrow> py_exn + string) option"
  depends_on :: "string option"

text \<open>\<^verbatim>\<open>lambda x: x.replace(" ", "") if x else ""\<close>\<close>

definition compact_transform :: "string \<Rightarrow> py_exn + string" where
  "compact_transform x = Inr (if x \<noteq> [] then remove_spaces x else [])"

text \<open>\<^verbatim>\<open>lambda x: x.split(" ")[1] if x and " " in x else ""\<close>\<close>

definition incode_transform :: "string \<Rightarrow> py_exn + string" where
  "incode_transform x =
     (if x \<noteq> [] \<and> CHR '' '' \<in> set x
      then (case split_space x of
              _ # b # _ \<Rightarrow> Inr b
            | _ \<Rightarrow> Inl IndexError)
      else Inr [])"

text \<open>\<^verbatim>\<open>lambda x: x.split(" ")[0] if x and " " in x else ""\<close>\<close>

definition outcode_transform :: "string \<Rightarrow> py_exn + string" where
  "outcode_transform x =
     (if x \<noteq> [] \<and> CHR '' '' \<in> set x
      then (case split_space x of
              a # _ \<Rightarrow> Inr a
            | _ \<Rightarrow> Inl IndexError)
      else Inr [])"

definition plain :: "string \<Rightarrow> string \<Rightarrow> field_def" where
  "plain col code =
     \<lparr>column = col, onspd_code = code, ftype = None, transform = None, depends_on = None\<rparr>"

definition ONSPD_FIELD_MAPPINGS :: "field_def list" where
  "ONSPD_FIELD_MAPPINGS =
    [plain ''postcode'' ''pcds'',
     (plain ''pc_compact'' ''pcds'')\<lparr>transform := Some compact_transform\<rparr>,
     (plain ''eastings'' ''oseast1m'')\<lparr>ftype := Some ''int''\<rparr>,
     (plain ''northings'' ''osnrth1m'')\<lparr>ftype := Some ''int''\<rparr>,
     (plain ''latitude'' ''lat'')\<lparr>ftype := Some ''float'', depends_on := Some ''osnrth1m''\<rparr>,
     (plain ''longitude'' ''long'')\<lparr>ftype := Some ''float'', depends_on := Some ''oseast1m''\<rparr>,
     plain ''country_code'' ''ctry'',
     plain ''nhs_ha_code'' ''oshlthau'',
     plain ''admin_county_id'' ''oscty'',
     plain ''admin_district_id'' ''oslaua'',
     plain ''admin_ward_id'' ''osward'',
     plain ''parish_id'' ''parish'',
     (plain ''quality'' ''osgrdind'')\<lparr>ftype := Some ''int''\<rparr>,
     plain ''constituency_id'' ''pcon'',
     plain ''european_electoral_region_code'' ''eer'',
     plain ''region_code'' ''rgn'',
     plain ''primary_care_trust_code'' ''pct'',
     plain ''lsoa_id'' ''lsoa11'',
     plain ''msoa_id'' ''msoa11'',
     plain ''nuts_id'' ''itl'',
     (plain ''incode'' ''pcds'')\<lparr>transform := Some incode_transform\<rparr>,
     (plain ''outcode'' ''pcds'')\<lparr>transform := Some outcode_transform\<rparr>,
     plain ''ced_id'' ''ced'',
     plain ''ccg_id'' ''sicbl'',
     plain ''date_of_introduction'' ''dointr'',
     plain ''date_of_termination'' ''doterm'',
     plain ''pfa_id'' ''pfa'']"

subsection \<open>Rows and the header map\<close>

text \<open>
  A cell of a chunk read with \<^verbatim>\<open>dtype=str, na_values=['']\<close> is a \<^verbatim>\<open>str\<close> or NaN
  (\<open>None\<close>); \<^verbatim>\<open>str(cell)\<close> of NaN is \<^verbatim>\<open>'nan'\<close>. A row is the list of its cells. The
  header map is a dictionary from column names to indices, read with
  \<^verbatim>\<open>.get(name, -1)\<close>.
\<close>

type_synonym cell = "string option"
type_synonym raw_row = "cell list"
type_synonym column_map = "string \<rightharpoonup> int"

definition py_str :: "cell \<Rightarrow> string" where
  "py_str c = (case c of None \<Rightarrow> ''nan'' | Some s \<Rightarrow> s)"

definition get_index :: "column_map \<Rightarrow> string \<Rightarrow> int" where
  "get_index m code = (case m code of None \<Rightarrow> - 1 | Some i \<Rightarrow> i)"

text \<open>\<^verbatim>\<open>idx >= 0 and idx < len(row)\<close>\<close>

definition in_row :: "int \<Rightarrow> raw_row \<Rightarrow> bool" where
  "in_row idx row = (0 \<le> idx \<and> idx < int (length row))"

text \<open>\<^verbatim>\<open>str(row.iloc[idx]).strip()\<close>, read only where \<open>in_row idx row\<close>.\<close>

definition cell_text :: "raw_row \<Rightarrow> int \<Rightarrow> string" where
  "cell_text row idx = py_strip (py_str (row ! nat idx))"

text \<open>
  \<^verbatim>\<open>_get_csv_column_mapping\<close>: the lower-cased header names to their positions; a
  name that occurs twice keeps its last position.
\<close>

fun enumerate_from :: "int \<Rightarrow> 'a list \<Rightarrow> (int \<times> 'a) list" where
  "enumerate_from i [] = []"
| "enumerate_from i (x # xs) = (i, x) # enumerate_from (i + 1) xs"

definition get_csv_column_mapping :: "string list \<Rightarrow> column_map" where
  "get_csv_column_mapping columns =
     foldl (\<lambda>mapping (i, col). mapping(col \<mapsto> i)) Map.empty
       (enumerate_from 0 (map py_lower columns))"

subsection \<open>Field extraction\<close>

text \<open>The value of one field, the body of the loop over the mappings.\<close>

definition empty_to_none :: "string \<Rightarrow> string option" where
  "empty_to_none v = (if v = [] \<or> py_lower v = ''nan'' then None else Some v)"

definition check_dependency :: "column_map \<Rightarrow> raw_row \<Rightarrow> field_def \<Rightarrow> string option \<Rightarrow> string option" where
  "check_dependency m row fd v =
     (case depends_on fd of
        None \<Rightarrow> v
      | Some dep \<Rightarrow>
          (let depends_idx = get_index m dep in
           if in_row depends_idx row then
             (let depends_val = cell_text row depends_idx in
              if depends_val = [] \<or> py_lower depends_val = ''nan'' \<or> depends_val = []
                 \<or> depends_val = ''0''
              then None else v)
           else v))"

text \<open>\<^verbatim>\<open>if 'transform' in field_def and value\<close>, with any exception of the transform caught.\<close>

definition apply_transform :: "field_def \<Rightarrow> string option \<Rightarrow> string option" where
  "apply_transform fd v =
     (case transform fd of
        None \<Rightarrow> v
      | Some t \<Rightarrow>
          (case v of
             None \<Rightarrow> None
           | Some s \<Rightarrow>
               if s \<noteq> [] then (case t s of Inl e \<Rightarrow> None | Inr s' \<Rightarrow> Some s')
               else Some s))"

definition plain_value :: "string option \<Rightarrow> 'f pyval" where
  "plain_value v = (case v of None \<Rightarrow> PNone | Some s \<Rightarrow> PStr s)"

text \<open>
  \<^verbatim>\<open>if value and field_def.get('type')\<close>: \<^verbatim>\<open>int(float(value))\<close> or
  \<^verbatim>\<open>float(value)\<close>, with ValueError and TypeError caught; any other exception of the
  conversion leaves the function.
\<close>

definition convert_type :: "'f float_ops \<Rightarrow> field_def \<Rightarrow> string option \<Rightarrow> py_exn + 'f pyval" where
  "convert_type fo fd v =
     (case v of
        None \<Rightarrow> Inr PNone
      | Some s \<Rightarrow>
          (case ftype fd of
             None \<Rightarrow> Inr (PStr s)
           | Some t \<Rightarrow>
               if s \<noteq> [] \<and> t \<noteq> [] then
                 (if t = ''int'' then
                    (case parse_float fo s of
                       None \<Rightarrow> Inr PNone
                     | Some x \<Rightarrow>
                         (case int_of_float fo x of
                            Inr n \<Rightarrow> Inr (PInt n)
                          | Inl e \<Rightarrow>
                              if e = ValueError \<or> e = TypeError then Inr PNone else Inl e))
                  else if t = ''float'' then
                    (case parse_float fo s of
                       None \<Rightarrow> Inr PNone
                     | Some x \<Rightarrow> Inr (PFloat x))
                  else Inr (PStr s))
               else Inr (PStr s)))"

definition extract_field :: "'f float_ops \<Rightarrow> column_map \<Rightarrow> raw_row \<Rightarrow> field_def \<Rightarrow> py_exn + 'f pyval" where
  "extract_field fo m row fd =
     (let onspd_idx = get_index m (onspd_code fd) in
      if in_row onspd_idx row then
        convert_type fo fd
          (apply_transform fd
            (check_dependency m row fd
              (empty_to_none (cell_text row onspd_idx))))
      else Inr PNone)"

type_synonym 'f flat_record = "string \<rightharpoonup> 'f pyval"

text \<open>The loop over the mappings: \<^verbatim>\<open>processed_row[field_def['column']] = value\<close>.\<close>

fun extract_fields ::
  "'f float_ops \<Rightarrow> column_map \<Rightarrow> raw_row \<Rightarrow> field_def list \<Rightarrow> 'f flat_record \<Rightarrow> py_exn + 'f flat_record"
where
  "extract_fields fo m row [] processed_row = Inr processed_row"
| "extract_fields fo m row (fd # fds) processed_row =
     (case extract_field fo m row fd of
        Inl e \<Rightarrow> Inl e
      | Inr v \<Rightarrow> extract_fields fo m row fds (processed_row(column fd \<mapsto> v)))"

subsection \<open>Lookup enrichment\<close>

text \<open>
  \<^verbatim>\<open>self.lookup_tables\<close> maps a table name to the parsed JSON of its file;
  \<^verbatim>\<open>self.column_mapping\<close> is the index map of the schema.
\<close>

record 'f processor =
  lookup_tables :: "string \<rightharpoonup> 'f pyval"
  column_mapping :: column_map

text \<open>The triples \<^verbatim>\<open>(code_field, table_name, name_field)\<close> of \<^verbatim>\<open>_add_human_readable_names\<close>.\<close>

definition name_mappings :: "(string \<times> string \<times> string) list" where
  "name_mappings =
    [(''country_code'', ''countries'', ''country''),
     (''admin_district_id'', ''districts'', ''admin_district''),
     (''admin_county_id'', ''counties'', ''admin_county''),
     (''admin_ward_id'', ''wards'', ''admin_ward''),
     (''parish_id'', ''parishes'', ''parish''),
     (''constituency_id'', ''constituencies'', ''parliamentary_constituency''),
     (''region_code'', ''regions'', ''region''),
     (''european_electoral_region_code'', ''european_registers'', ''european_electoral_region''),
     (''primary_care_trust_code'', ''pcts'', ''primary_care_trust''),
     (''ccg_id'', ''ccgs'', ''ccg''),
     (''lsoa_id'', ''lsoa'', ''lsoa''),
     (''msoa_id'', ''msoa'', ''msoa''),
     (''nuts_id'', ''nuts'', ''nuts''),
     (''pfa_id'', ''police_force_areas'', ''pfa''),
     (''ced_id'', ''ceds'', ''ced''),
     (''nhs_ha_code'', ''nhsHa'', ''nhs_ha'')]"

text \<open>
  \<^verbatim>\<open>next((item for item in lookup_table if item.get('code') == code), None)\<close>: the
  first item whose \<^verbatim>\<open>code\<close> is the code. An item before it that is not a
  \<^verbatim>\<open>dict\<close> has no \<^verbatim>\<open>get\<close>: AttributeError.
\<close>

fun find_match :: "'f pyval list \<Rightarrow> 'f pyval \<Rightarrow> py_exn + (string \<times> 'f pyval) list option" where
  "find_match [] code = Inr None"
| "find_match (item # items) code =
     (case item of
        PDict d \<Rightarrow> if map_of d ''code'' = Some code then Inr (Some d)
                   else find_match items code
      | _ \<Rightarrow> Inl AttributeError)"

text \<open>
  \<^verbatim>\<open>code in lookup_table\<close> and \<^verbatim>\<open>lookup_table[code]\<close> for a table that is a
  \<^verbatim>\<open>dict\<close>: the keys of parsed JSON are strings, and a list or a dict cannot be
  hashed.
\<close>

definition dict_lookup :: "(string \<times> 'f pyval) list \<Rightarrow> 'f pyval \<Rightarrow> py_exn + 'f pyval option" where
  "dict_lookup entries code =
     (case code of
        PStr s \<Rightarrow> Inr (map_of entries s)
      | PList xs \<Rightarrow> Inl TypeError
      | PDict d \<Rightarrow> Inl TypeError
      | _ \<Rightarrow> Inr None)"

text \<open>
  What one lookup assigns to \<^verbatim>\<open>row[name_field]\<close> (\<open>None\<close>: no assignment), by the
  shape of the table.
\<close>

definition lookup_name :: "'f pyval \<Rightarrow> 'f pyval \<Rightarrow> py_exn + 'f pyval option" where
  "lookup_name lookup_table code =
     (case lookup_table of
        PDict entries \<Rightarrow>
          (case dict_lookup entries code of
             Inl e \<Rightarrow> Inl e
           | Inr None \<Rightarrow> Inr None
           | Inr (Some lookup_result) \<Rightarrow>
               (case lookup_result of
                  PDict d \<Rightarrow>
                    (case map_of d ''name'' of
                       Some n \<Rightarrow> Inr (Some n)
                     | None \<Rightarrow>
                         (case map_of d ''value'' of
                            Some v \<Rightarrow> Inr (Some v)
                          | None \<Rightarrow> Inr (Some lookup_result)))
                | _ \<Rightarrow> Inr (Some lookup_result)))
      | PList items \<Rightarrow>
          (case find_match items code of
             Inl e \<Rightarrow> Inl e
           | Inr None \<Rightarrow> Inr None
           | Inr (Some d) \<Rightarrow>
               if d \<noteq> [] then
                 Inr (Some (case map_of d ''name'' of
                              Some n \<Rightarrow> n
                            | None \<Rightarrow> (case map_of d ''value'' of Some v \<Rightarrow> v | None \<Rightarrow> PNone)))
               else Inr None)
      | _ \<Rightarrow> Inr None)"

text \<open>
  \<^verbatim>\<open>row.get(code_field)\<close>: \<^verbatim>\<open>None\<close> for a key the row does not have.
\<close>

definition row_get :: "'f flat_record \<Rightarrow> string \<Rightarrow> 'f pyval" where
  "row_get row k = (case row k of None \<Rightarrow> PNone | Some v \<Rightarrow> v)"

text \<open>
  The loop over the triples. \<^verbatim>\<open>==\<close> between the code and an item's code is equality
  of values (Python also equates numbers of different types, which codes are not).
\<close>

fun add_names ::
  "'f float_ops \<Rightarrow> (string \<rightharpoonup> 'f pyval) \<Rightarrow> (string \<times> string \<times> string) list \<Rightarrow> 'f flat_record
   \<Rightarrow> py_exn + 'f flat_record"
where
  "add_names fo tables [] row = Inr row"
| "add_names fo tables ((code_field, table_name, name_field) # rest) row =
     (let code = row_get row code_field in
      if truthy fo code then
        (case tables table_name of
           None \<Rightarrow> add_names fo tables rest row
         | Some lookup_table \<Rightarrow>
             (case lookup_name lookup_table code of
                Inl e \<Rightarrow> Inl e
              | Inr None \<Rightarrow> add_names fo tables rest row
              | Inr (Some label) \<Rightarrow> add_names fo tables rest (row(name_field \<mapsto> label))))
      else add_names fo tables rest row)"

definition add_human_readable_names ::
  "'f float_ops \<Rightarrow> 'f processor \<Rightarrow> 'f flat_record \<Rightarrow> py_exn + 'f flat_record"
where
  "add_human_readable_names fo self row = add_names fo (lookup_tables self) name_mappings row"

text \<open>The label fields: the third components of the triples.\<close>

definition label_fields :: "string list" where
  "label_fields = map (\<lambda>(code_field, table_name, name_field). name_field) name_mappings"

subsection \<open>Chunk processing\<close>

text \<open>
  The two guards at the head of the row loop of \<^verbatim>\<open>_process_chunk\<close>, each a
  \<^verbatim>\<open>continue\<close>.
\<close>

definition is_terminated :: "column_map \<Rightarrow> raw_row \<Rightarrow> bool" where
  "is_terminated m row =
     (let doterm_idx = get_index m ''doterm'' in
      if in_row doterm_idx row then
        (let doterm_val = cell_text row doterm_idx in
         doterm_val \<noteq> [] \<and> doterm_val \<noteq> ''nan'' \<and> length doterm_val > 0)
      else False)"

definition is_header_row :: "column_map \<Rightarrow> raw_row \<Rightarrow> bool" where
  "is_header_row m row =
     (let pcd_idx = get_index m ''pcd'' in
      if in_row pcd_idx row then py_lower (cell_text row pcd_idx) = ''pcd''
      else False)"

text \<open>\<^verbatim>\<open>if processed_row.get('postcode')\<close>\<close>

definition has_postcode :: "'f float_ops \<Rightarrow> 'f flat_record \<Rightarrow> bool" where
  "has_postcode fo r = truthy fo (row_get r ''postcode'')"

text \<open>
  One turn of the row loop: \<open>Inr None\<close> when the row is skipped or dropped,
  \<open>Inr (Some r)\<close> when \<open>r\<close> is appended to \<^verbatim>\<open>processed_rows\<close>, \<open>Inl e\<close> when an
  exception leaves \<^verbatim>\<open>_process_chunk\<close>.
\<close>

definition process_row ::
  "'f float_ops \<Rightarrow> 'f processor \<Rightarrow> column_map \<Rightarrow> raw_row \<Rightarrow> py_exn + 'f flat_record option"
where
  "process_row fo self m row =
     (if is_terminated m row then Inr None
      else if is_header_row m row then Inr None
      else
        (case extract_fields fo m row ONSPD_FIELD_MAPPINGS Map.empty of
           Inl e \<Rightarrow> Inl e
         | Inr processed_row \<Rightarrow>
             (case add_human_readable_names fo self processed_row of
                Inl e \<Rightarrow> Inl e
              | Inr enriched \<Rightarrow>
                  if has_postcode fo enriched then Inr (Some enriched) else Inr None)))"

fun process_rows ::
  "'f float_ops \<Rightarrow> 'f processor \<Rightarrow> column_map \<Rightarrow> raw_row list \<Rightarrow> py_exn + 'f flat_record list"
where
  "process_rows fo self m [] = Inr []"
| "process_rows fo self m (row # rows) =
     (case process_row fo self m row of
        Inl e \<Rightarrow> Inl e
      | Inr r \<Rightarrow>
          (case process_rows fo self m rows of
             Inl e \<Rightarrow> Inl e
           | Inr rs \<Rightarrow> Inr (case r of None \<Rightarrow> rs | Some x \<Rightarrow> x # rs)))"

text \<open>
  \<^verbatim>\<open>_process_chunk(chunk, csv_column_mapping=None)\<close>; the result stands for the
  DataFrame of the processed rows, one record a row, each value as the row loop
  computed it. The source returns \<^verbatim>\<open>pd.DataFrame(processed_rows)\<close>, and the chunks'
  DataFrames are joined by \<^verbatim>\<open>pd.concat\<close>: pandas infers a dtype for each column of
  each chunk, so whether a column of integers and \<^verbatim>\<open>None\<close> ends as floats and NaN
  depends on how the rows fall into chunks. That inference is not modelled.
\<close>

definition process_chunk ::
  "'f float_ops \<Rightarrow> 'f processor \<Rightarrow> raw_row list \<Rightarrow> column_map option \<Rightarrow> py_exn + 'f flat_record list"
where
  "process_chunk fo self chunk csv_column_mapping =
     process_rows fo self
       (case csv_column_mapping of None \<Rightarrow> column_mapping self | Some m \<Rightarrow> m) chunk"

subsection \<open>Reading a file in chunks\<close>

text \<open>
  A source file as the reader delivers it: whether the path exists, what reading its
  header line gives (\<^verbatim>\<open>pd.read_csv(csv_path, nrows=0)\<close>: the column names or an
  exception), and its data lines in order, each the row it parses to or the exception
  the reader raises on reaching it.
\<close>

record csv_file =
  file_exists :: bool
  header_line :: "py_exn + string list"
  data_lines :: "(py_exn + raw_row) list"

text \<open>The records logged at level error or warning.\<close>

datatype log_event =
    ErrorProcessing py_exn
  | WarnNoValidData
  | WarnNoDataProcessed

text \<open>Consecutive chunks of \<open>n\<close> lines, the last one shorter when \<open>n\<close> does not divide.\<close>

function chunks_of :: "nat \<Rightarrow> 'a list \<Rightarrow> 'a list list" where
  "chunks_of n xs = (if n = 0 \<or> xs = [] then [] else take n xs # chunks_of n (drop n xs))"
  by pat_completeness auto
termination
  by (relation "measure (\<lambda>(n, xs). length xs)") auto

declare chunks_of.simps [simp del]

text \<open>
  Reading one chunk raises at its first line that does not parse. Whether a line parses
  is fixed here line by line. pandas decides it chunk by chunk (its reader does not test
  the number of fields of a chunk's first line), so for a file with a malformed line
  what the real reader raises can depend on the chunk size; that is not modelled.
\<close>

fun read_chunk :: "(py_exn + raw_row) list \<Rightarrow> py_exn + raw_row list" where
  "read_chunk [] = Inr []"
| "read_chunk (l # ls) =
     (case l of
        Inl e \<Rightarrow> Inl e
      | Inr row \<Rightarrow> (case read_chunk ls of Inl e \<Rightarrow> Inl e | Inr rows \<Rightarrow> Inr (row # rows)))"

text \<open>
  The \<^verbatim>\<open>for chunk in pd.read_csv(..., chunksize=chunk_size)\<close> loop: each chunk is
  read, processed, and appended to \<^verbatim>\<open>chunks\<close> unless it is empty.
\<close>

fun chunk_loop ::
  "'f float_ops \<Rightarrow> 'f processor \<Rightarrow> column_map \<Rightarrow> (py_exn + raw_row) list list
   \<Rightarrow> py_exn + 'f flat_record list list"
where
  "chunk_loop fo self m [] = Inr []"
| "chunk_loop fo self m (c # cs) =
     (case read_chunk c of
        Inl e \<Rightarrow> Inl e
      | Inr chunk \<Rightarrow>
          (case process_chunk fo self chunk (Some m) of
             Inl e \<Rightarrow> Inl e
           | Inr processed_chunk \<Rightarrow>
               (case chunk_loop fo self m cs of
                  Inl e \<Rightarrow> Inl e
                | Inr chunks \<Rightarrow>
                    Inr (if processed_chunk \<noteq> [] then processed_chunk # chunks else chunks))))"

text \<open>
  The body of the \<^verbatim>\<open>try\<close>: \<^verbatim>\<open>pd.read_csv\<close> raises ValueError for a
  \<^verbatim>\<open>chunksize\<close> below 1.
\<close>

definition read_and_process ::
  "'f float_ops \<Rightarrow> 'f processor \<Rightarrow> column_map \<Rightarrow> csv_file \<Rightarrow> int \<Rightarrow> py_exn + 'f flat_record list list"
where
  "read_and_process fo self m f chunk_size =
     (if chunk_size < 1 then Inl ValueError
      else chunk_loop fo self m (chunks_of (nat chunk_size) (data_lines f)))"

text \<open>
  \<^verbatim>\<open>process_onspd_csv\<close>: the existence check and the header read come before the
  \<^verbatim>\<open>try\<close>; \<^verbatim>\<open>except Exception\<close> logs and returns an empty DataFrame.
\<close>

definition process_onspd_csv ::
  "'f float_ops \<Rightarrow> 'f processor \<Rightarrow> csv_file \<Rightarrow> int \<Rightarrow> py_exn + (log_event list \<times> 'f flat_record list)"
where
  "process_onspd_csv fo self f chunk_size =
     (if \<not> file_exists f then Inl FileNotFoundError
      else
        (case header_line f of
           Inl e \<Rightarrow> Inl e
         | Inr columns \<Rightarrow>
             (let csv_column_mapping = get_csv_column_mapping columns in
              case read_and_process fo self csv_column_mapping f chunk_size of
                Inl e \<Rightarrow> Inr ([ErrorProcessing e], [])
              | Inr chunks \<Rightarrow>
                  if chunks = [] then Inr ([WarnNoValidData], [])
                  else Inr ([], concat chunks))))"

text \<open>
  The rows a file's lines give when they are read and processed in one piece: \<open>None\<close>
  when a line does not parse or a row raises.
\<close>

definition rows_of_lines ::
  "'f float_ops \<Rightarrow> 'f processor \<Rightarrow> column_map \<Rightarrow> (py_exn + raw_row) list \<Rightarrow> 'f flat_record list option"
where
  "rows_of_lines fo self m lines =
     (case read_chunk lines of
        Inl e \<Rightarrow> None
      | Inr rows \<Rightarrow>
          (case process_rows fo self m rows of Inl e \<Rightarrow> None | Inr rs \<Rightarrow> Some rs))"

text \<open>
  What the row loop gives for a file whose lines are read and processed in one piece,
  with the raises of \<^verbatim>\<open>process_onspd_csv\<close> before its \<^verbatim>\<open>try\<close>.
\<close>

definition file_rows :: "'f float_ops \<Rightarrow> 'f processor \<Rightarrow> csv_file \<Rightarrow> py_exn + 'f flat_record list" where
  "file_rows fo self f =
     (if \<not> file_exists f then Inl FileNotFoundError
      else (case header_line f of
              Inl e \<Rightarrow> Inl e
            | Inr columns \<Rightarrow>
                Inr (case rows_of_lines fo self (get_csv_column_mapping columns) (data_lines f) of
                       None \<Rightarrow> [] | Some rs \<Rightarrow> rs)))"

text \<open>What a call raises or returns, leaving out what it logged.\<close>

definition outcome :: "py_exn + (log_event list \<times> 'a) \<Rightarrow> py_exn + 'a" where
  "outcome r = (case r of Inl e \<Rightarrow> Inl e | Inr (lg, x) \<Rightarrow> Inr x)"

subsection \<open>Directory processing and statistics\<close>

text \<open>\<^verbatim>\<open>ProcessingStats\<close> without \<^verbatim>\<open>processing_time\<close>, which is wall-clock time.\<close>

record ProcessingStats =
  total_rows_processed :: int
  active_postcodes :: int
  terminated_postcodes :: int
  with_coordinates :: int

definition initial_stats :: ProcessingStats where
  "initial_stats =
     \<lparr>total_rows_processed = 0, active_postcodes = 0, terminated_postcodes = 0,
      with_coordinates = 0\<rparr>"

text \<open>pandas' \<^verbatim>\<open>isna\<close> on a value of a column: a missing key, \<^verbatim>\<open>None\<close> or a NaN.\<close>

definition isna :: "'f float_ops \<Rightarrow> 'f pyval option \<Rightarrow> bool" where
  "isna fo v =
     (case v of
        None \<Rightarrow> True
      | Some PNone \<Rightarrow> True
      | Some (PFloat x) \<Rightarrow> float_isnan fo x
      | _ \<Rightarrow> False)"

text \<open>\<^verbatim>\<open>len(file_stats[file_stats['date_of_termination'].isna()])\<close>\<close>

definition count_active :: "'f float_ops \<Rightarrow> 'f flat_record list \<Rightarrow> int" where
  "count_active fo rows = int (length (filter (\<lambda>r. isna fo (r ''date_of_termination'')) rows))"

text \<open>\<^verbatim>\<open>len(file_stats.dropna(subset=['latitude', 'longitude']))\<close>\<close>

definition count_with_coordinates :: "'f float_ops \<Rightarrow> 'f flat_record list \<Rightarrow> int" where
  "count_with_coordinates fo rows =
     int (length (filter (\<lambda>r. \<not> isna fo (r ''latitude'') \<and> \<not> isna fo (r ''longitude'')) rows))"

definition add_file_stats :: "'f float_ops \<Rightarrow> 'f flat_record list \<Rightarrow> ProcessingStats \<Rightarrow> ProcessingStats" where
  "add_file_stats fo file_stats stats =
     stats\<lparr>total_rows_processed := total_rows_processed stats + int (length file_stats),
           active_postcodes := active_postcodes stats + count_active fo file_stats,
           with_coordinates := with_coordinates stats + count_with_coordinates fo file_stats\<rparr>"

text \<open>
  What the loop over the files keeps true of the statistics and \<^verbatim>\<open>all_chunks\<close>.
\<close>

definition stats_ok :: "ProcessingStats \<Rightarrow> 'f flat_record list list \<Rightarrow> bool" where
  "stats_ok stats all_chunks =
     (0 \<le> active_postcodes stats \<and> active_postcodes stats \<le> total_rows_processed stats
      \<and> 0 \<le> with_coordinates stats \<and> with_coordinates stats \<le> total_rows_processed stats
      \<and> total_rows_processed stats = int (length (concat all_chunks))
      \<and> terminated_postcodes stats = 0)"

text \<open>
  The loop over the files. \<^verbatim>\<open>process_onspd_csv\<close> is called with no \<^verbatim>\<open>try\<close>
  around it: an exception it raises leaves the loop.
\<close>

fun directory_loop ::
  "'f float_ops \<Rightarrow> 'f processor \<Rightarrow> int \<Rightarrow> csv_file list
   \<Rightarrow> log_event list \<times> 'f flat_record list list \<times> ProcessingStats
   \<Rightarrow> py_exn + (log_event list \<times> 'f flat_record list list \<times> ProcessingStats)"
where
  "directory_loop fo self chunk_size [] state = Inr state"
| "directory_loop fo self chunk_size (csv_file # csv_files) (lg, all_chunks, stats) =
     (case process_onspd_csv fo self csv_file chunk_size of
        Inl e \<Rightarrow> Inl e
      | Inr (l, file_stats) \<Rightarrow>
          if length file_stats > 0 then
            directory_loop fo self chunk_size csv_files
              (lg @ l, all_chunks @ [file_stats], add_file_stats fo file_stats stats)
          else directory_loop fo self chunk_size csv_files (lg @ l, all_chunks, stats))"

text \<open>
  \<^verbatim>\<open>process_onspd_csv_directory\<close>. The directory is \<open>None\<close> when the path does not
  exist, else the files \<^verbatim>\<open>glob("*.csv")\<close> finds. The result carries what was logged,
  the statistics at the return, and the combined DataFrame.
\<close>

definition process_onspd_csv_directory ::
  "'f float_ops \<Rightarrow> 'f processor \<Rightarrow> csv_file list option \<Rightarrow> int
   \<Rightarrow> py_exn + (log_event list \<times> ProcessingStats \<times> 'f flat_record list)"
where
  "process_onspd_csv_directory fo self csv_directory chunk_size =
     (case csv_directory of
        None \<Rightarrow> Inl FileNotFoundError
      | Some csv_files \<Rightarrow>
          if csv_files = [] then Inl ValueError
          else
            (case directory_loop fo self chunk_size csv_files ([], [], initial_stats) of
               Inl e \<Rightarrow> Inl e
             | Inr (lg, all_chunks, stats) \<Rightarrow>
                 if all_chunks = [] then Inr (lg @ [WarnNoDataProcessed], stats, [])
                 else
                   Inr (lg,
                        stats\<lparr>terminated_postcodes :=
                                 total_rows_processed stats - active_postcodes stats\<rparr>,
                        concat all_chunks)))"

text \<open>
  The filter of \<^verbatim>\<open>generate_enhanced_postcode_data\<close>:
  \<^verbatim>\<open>df[df['date_of_termination'].isna() | (df['date_of_termination'] == '')]\<close>.
\<close>

definition active_df :: "'f float_ops \<Rightarrow> 'f flat_record list \<Rightarrow> 'f flat_record list" where
  "active_df fo df =
     filter (\<lambda>r. isna fo (r ''date_of_termination'') \<or> r ''date_of_termination'' = Some (PStr [])) df"

text \<open>
  What a run shows of its rows: the combined DataFrame, its active part, and the three
  statistics tallied from the per-file results.
\<close>

definition run_summary ::
  "'f float_ops \<Rightarrow> py_exn + (log_event list \<times> ProcessingStats \<times> 'f flat_record list)
   \<Rightarrow> py_exn + ('f flat_record list \<times> 'f flat_record list \<times> int \<times> int \<times> int)"
where
  "run_summary fo r =
     (case r of
        Inl e \<Rightarrow> Inl e
      | Inr (lg, stats, df) \<Rightarrow>
          Inr (df, active_df fo df, total_rows_processed stats, active_postcodes stats,
               with_coordinates stats))"

subsection \<open>An instance of the float operations\<close>

text \<open>
  For evaluating examples: the floats that are whole numbers, written as a string of
  decimal digits. No other string parses, and none of them is a NaN or an infinity.
\<close>

fun parse_digits :: "string \<Rightarrow> int \<Rightarrow> int option" where
  "parse_digits [] acc = Some acc"
| "parse_digits (c # cs) acc =
     (let n = (of_char c :: nat) in
      if 48 \<le> n \<and> n \<le> 57 then parse_digits cs (10 * acc + int n - 48) else None)"

definition whole_float_ops :: "int float_ops" where
  "whole_float_ops =
     \<lparr>parse_float = (\<lambda>s. if s = [] then None else parse_digits s 0),
      int_of_float = Inr,
      float_isnan = (\<lambda>x. False),
      float_nonzero = (\<lambda>x. x \<noteq> 0)\<rparr>"

subsection \<open>Example inputs\<close>

definition ex_columns :: "string list" where
  "ex_columns = [''pcds'', ''oseast1m'', ''osnrth1m'', ''lat'', ''long'', ''doterm'', ''ctry'']"

definition ex_map :: column_map where
  "ex_map = get_csv_column_mapping ex_columns"

definition ex_processor :: "int processor" where
  "ex_processor =
     \<lparr>lookup_tables = [''countries'' \<mapsto> PDict [(''E92000001'', PStr ''England'')]],
      column_mapping = Map.empty\<rparr>"

definition ex_row :: "string \<Rightarrow> string \<Rightarrow> cell \<Rightarrow> raw_row" where
  "ex_row pcds osnrth1m doterm =
     [Some pcds, Some ''529090'', Some osnrth1m, Some ''51'', Some ''0'', doterm,
      Some ''E92000001'']"

text \<open>A \<^verbatim>\<open>pcds\<close> cell with no space and a tab at its end.\<close>

definition ex_tab_pcds :: string where
  "ex_tab_pcds = ''SW1A1AA'' @ [CHR 0x09]"

definition latitude_mapping :: field_def where
  "latitude_mapping =
     (plain ''latitude'' ''lat'')\<lparr>ftype := Some ''float'', depends_on := Some ''osnrth1m''\<rparr>"

definition ex_record :: "int flat_record" where
  "ex_record = [''postcode'' \<mapsto> PStr ''SW1A 1AA'', ''country_code'' \<mapsto> PStr ''E92000001'']"

definition ex_file :: csv_file where
  "ex_file =
     \<lparr>file_exists = True, header_line = Inr ex_columns,
      data_lines =
        [Inr (ex_row ''SW1A 1AA'' ''179645'' None),
         Inr (ex_row ''SW1A 2AA'' ''179645'' (Some ''2020-01-01'')),
         Inr (ex_row ''EC1A 1BB'' ''0'' None)]\<rparr>"

text \<open>A zero-byte file: reading its header raises. A file whose second data line does not parse.\<close>

definition ex_unreadable_file :: csv_file where
  "ex_unreadable_file = \<lparr>file_exists = True, header_line = Inl EmptyDataError, data_lines = []\<rparr>"

definition ex_broken_file :: csv_file where
  "ex_broken_file =
     \<lparr>file_exists = True, header_line = Inr ex_columns,
      data_lines = [Inr (ex_row ''SW1A 1AA'' ''179645'' None), Inl ParserError]\<rparr>"

definition ex_terminated_file :: csv_file where
  "ex_terminated_file =
     \<lparr>file_exists = True, header_line = Inr ex_columns,
      data_lines = [Inr (ex_row ''SW1A 2AA'' ''179645'' (Some ''2020-01-01''))]\<rparr>"

section \<open>Properties\<close>

subsection \<open>Facts about extraction\<close>

lemma distinct_columns: "distinct (map column ONSPD_FIELD_MAPPINGS)"
  by code_simp

lemma columns_not_labels:
  assumes "fd \<in> set ONSPD_FIELD_MAPPINGS"
  shows "column fd \<notin> set label_fields"
proof -
  have "list_all (\<lambda>c. c \<notin> set label_fields) (map column ONSPD_FIELD_MAPPINGS)"
    by code_simp
  with assms show ?thesis by (simp add: list_all_iff)
qed

lemma extract_fields_other:
  "extract_fields fo m row fds pr = Inr pr' \<Longrightarrow> k \<notin> column ` set fds \<Longrightarrow> pr' k = pr k"
  by (induction fds arbitrary: pr) (auto split: sum.splits)

lemma extract_fields_value:
  "extract_fields fo m row fds pr = Inr pr' \<Longrightarrow> distinct (map column fds) \<Longrightarrow> fd \<in> set fds
   \<Longrightarrow> \<exists>v. extract_field fo m row fd = Inr v \<and> pr' (column fd) = Some v"
proof (induction fds arbitrary: pr)
  case Nil
  then show ?case by simp
next
  case (Cons a fds)
  from Cons.prems(1) obtain va where va: "extract_field fo m row a = Inr va"
    and rest: "extract_fields fo m row fds (pr(column a \<mapsto> va)) = Inr pr'"
    by (auto split: sum.splits)
  show ?case
  proof (cases "fd = a")
    case True
    from Cons.prems(2) have "column a \<notin> column ` set fds" by auto
    with rest have "pr' (column a) = Some va"
      using extract_fields_other by fastforce
    with va True show ?thesis by simp
  next
    case False
    with Cons.prems have "fd \<in> set fds" "distinct (map column fds)" by auto
    with Cons.IH rest show ?thesis by blast
  qed
qed

lemma extract_fields_dom:
  "extract_fields fo m row fds pr = Inr pr' \<Longrightarrow> dom pr' = dom pr \<union> column ` set fds"
  by (induction fds arbitrary: pr) (auto split: sum.splits)

subsection \<open>Facts about enrichment\<close>

lemma add_names_other:
  "add_names fo tables ms r = Inr r' \<Longrightarrow> k \<notin> (\<lambda>(c, t, n). n) ` set ms \<Longrightarrow> r' k = r k"
proof (induction ms arbitrary: r)
  case Nil
  then show ?case by simp
next
  case (Cons a ms)
  obtain c t n where a: "a = (c, t, n)" by (cases a)
  from Cons.prems(2) a have k: "k \<noteq> n" "k \<notin> (\<lambda>(c, t, n). n) ` set ms" by auto
  from Cons.prems(1) a consider "add_names fo tables ms r = Inr r'"
    | label where "add_names fo tables ms (r(n \<mapsto> label)) = Inr r'"
    by (auto simp: Let_def split: option.splits sum.splits if_splits)
  then show ?case
  proof cases
    case 1
    with Cons.IH k show ?thesis by blast
  next
    case 2
    with Cons.IH k have "r' k = (r(n \<mapsto> label)) k" by blast
    with k show ?thesis by simp
  qed
qed

lemma add_names_cases:
  assumes "add_names fo tables ((c, t, n) # ms) r = Inr r'"
  obtains "add_names fo tables ms r = Inr r'"
    | label where "add_names fo tables ms (r(n \<mapsto> label)) = Inr r'"
  using assms by (auto simp: Let_def split: option.splits sum.splits if_splits)

lemma add_names_dom_lower:
  "add_names fo tables ms r = Inr r' \<Longrightarrow> dom r \<subseteq> dom r'"
proof (induction ms arbitrary: r)
  case Nil
  then show ?case by simp
next
  case (Cons a ms)
  obtain c t n where a: "a = (c, t, n)" by (cases a)
  from Cons.prems[unfolded a] show ?case
  proof (cases rule: add_names_cases)
    case 1
    then show ?thesis by (rule Cons.IH)
  next
    case (2 label)
    then have "dom (r(n \<mapsto> label)) \<subseteq> dom r'" by (rule Cons.IH)
    then show ?thesis by auto
  qed
qed

lemma add_names_dom_upper:
  "add_names fo tables ms r = Inr r' \<Longrightarrow> dom r' \<subseteq> dom r \<union> set (map (\<lambda>(c, t, n). n) ms)"
proof (induction ms arbitrary: r)
  case Nil
  then show ?case by simp
next
  case (Cons a ms)
  obtain c t n where a: "a = (c, t, n)" by (cases a)
  from Cons.prems[unfolded a] show ?case
  proof (cases rule: add_names_cases)
    case 1
    then have "dom r' \<subseteq> dom r \<union> set (map (\<lambda>(c, t, n). n) ms)" by (rule Cons.IH)
    then show ?thesis by auto
  next
    case (2 label)
    then have "dom r' \<subseteq> dom (r(n \<mapsto> label)) \<union> set (map (\<lambda>(c, t, n). n) ms)"
      by (rule Cons.IH)
    then show ?thesis using a by auto
  qed
qed

lemma enrich_other:
  "add_human_readable_names fo self r = Inr r' \<Longrightarrow> k \<notin> set label_fields \<Longrightarrow> r' k = r k"
  unfolding add_human_readable_names_def label_fields_def
  using add_names_other[of fo "lookup_tables self" name_mappings r r' k] by simp

lemma enrich_dom:
  assumes "add_human_readable_names fo self r = Inr r'"
  shows "dom r \<subseteq> dom r'" and "dom r' \<subseteq> dom r \<union> set label_fields"
  using assms add_names_dom_lower[of fo "lookup_tables self" name_mappings r r']
    add_names_dom_upper[of fo "lookup_tables self" name_mappings r r']
  unfolding add_human_readable_names_def label_fields_def by blast+

subsection \<open>Facts about the row loop\<close>

lemma process_row_Some:
  assumes "process_row fo self m row = Inr (Some r)"
  obtains pr where "extract_fields fo m row ONSPD_FIELD_MAPPINGS Map.empty = Inr pr"
    and "add_human_readable_names fo self pr = Inr r" and "has_postcode fo r"
    and "\<not> is_terminated m row" and "\<not> is_header_row m row"
  using assms by (auto simp: process_row_def split: if_splits sum.splits)

lemma process_row_field:
  assumes "process_row fo self m row = Inr (Some r)" and "fd \<in> set ONSPD_FIELD_MAPPINGS"
  shows "\<exists>v. extract_field fo m row fd = Inr v \<and> r (column fd) = Some v"
proof -
  from assms(1) obtain pr where pr: "extract_fields fo m row ONSPD_FIELD_MAPPINGS Map.empty = Inr pr"
    and r: "add_human_readable_names fo self pr = Inr r"
    by (rule process_row_Some)
  from extract_fields_value[OF pr distinct_columns assms(2)]
  obtain v where v: "extract_field fo m row fd = Inr v" "pr (column fd) = Some v" by blast
  from enrich_other[OF r columns_not_labels[OF assms(2)]] v show ?thesis by simp
qed

lemma process_rows_member:
  "process_rows fo self m rows = Inr rs \<Longrightarrow> r \<in> set rs
   \<Longrightarrow> \<exists>row \<in> set rows. process_row fo self m row = Inr (Some r)"
  by (induction rows arbitrary: rs) (auto split: sum.splits option.splits)

lemma lower_nan: "py_lower ''nan'' = ''nan''"
  by code_simp

lemma check_dependency_null:
  assumes "depends_on fd = Some dep" "m dep = Some j" "in_row j row"
    "cell_text row j = [] \<or> cell_text row j = ''nan'' \<or> cell_text row j = ''0''"
  shows "check_dependency m row fd v = None"
  using assms by (auto simp: check_dependency_def get_index_def lower_nan)

subsection \<open>Dependency nulling\<close>

text \<open>
  Claim C1. For a mapping that declares \<^verbatim>\<open>depends_on\<close>, when the header map resolves
  the dependency to a cell of the row and that cell, as a string and trimmed, is empty,
  \<^verbatim>\<open>'nan'\<close> (which is also what an empty cell reads as) or \<^verbatim>\<open>'0'\<close>, the value
  extracted for the target is \<^verbatim>\<open>None\<close>, whatever the target's own cell, its
  transform and its type are. For a mapping of \<^verbatim>\<open>ONSPD_FIELD_MAPPINGS\<close> the record
  that chunk processing keeps for the row holds \<^verbatim>\<open>None\<close> in the target column.
\<close>

theorem dependency_forces_null:
  assumes "depends_on fd = Some dep" and "m dep = Some j" and "in_row j row"
    and "cell_text row j = [] \<or> cell_text row j = ''nan'' \<or> cell_text row j = ''0''"
  shows "extract_field fo m row fd = Inr PNone \<and>
         (fd \<in> set ONSPD_FIELD_MAPPINGS \<longrightarrow>
            (\<forall>r. process_row fo self m row = Inr (Some r) \<longrightarrow> r (column fd) = Some PNone))"
proof -
  have null: "extract_field fo m row fd = Inr PNone"
    using check_dependency_null[of fd dep m j row] assms
    by (simp add: extract_field_def Let_def apply_transform_def convert_type_def
        split: option.splits)
  moreover have "r (column fd) = Some PNone"
    if "fd \<in> set ONSPD_FIELD_MAPPINGS" "process_row fo self m row = Inr (Some r)" for r
    using process_row_field[OF that(2) that(1)] null by simp
  ultimately show ?thesis by blast
qed

theorem dependency_forces_null_witness:
  "depends_on latitude_mapping = Some ''osnrth1m'' \<and> ex_map ''osnrth1m'' = Some 2
   \<and> in_row 2 (ex_row ''SW1A 1AA'' ''0'' None)
   \<and> cell_text (ex_row ''SW1A 1AA'' ''0'' None) 2 = ''0''
   \<and> ex_row ''SW1A 1AA'' ''0'' None ! 3 = Some ''51''
   \<and> extract_field whole_float_ops ex_map (ex_row ''SW1A 1AA'' ''0'' None) latitude_mapping = Inr PNone
   \<and> (\<exists>r. process_row whole_float_ops ex_processor ex_map (ex_row ''SW1A 1AA'' ''0'' None) = Inr (Some r)
          \<and> r ''latitude'' = Some PNone)"
proof -
  let ?row = "ex_row ''SW1A 1AA'' ''0'' None"
  have h1: "depends_on latitude_mapping = Some ''osnrth1m''" by code_simp
  have h2: "ex_map ''osnrth1m'' = Some 2" by code_simp
  have h3: "in_row 2 ?row" by code_simp
  have h4: "cell_text ?row 2 = ''0''" by code_simp
  have h5: "?row ! 3 = Some ''51''" by code_simp
  have mem: "latitude_mapping \<in> set ONSPD_FIELD_MAPPINGS"
    by (simp add: latitude_mapping_def ONSPD_FIELD_MAPPINGS_def)
  have col: "column latitude_mapping = ''latitude''" by code_simp
  have "case process_row whole_float_ops ex_processor ex_map ?row of
          Inr (Some r) \<Rightarrow> True | _ \<Rightarrow> False"
    by code_simp
  then obtain r where r: "process_row whole_float_ops ex_processor ex_map ?row = Inr (Some r)"
    by (auto split: sum.splits option.splits)
  from dependency_forces_null[of latitude_mapping "''osnrth1m''" ex_map 2 ?row whole_float_ops ex_processor]
    h1 h2 h3 h4 mem r col
  have "extract_field whole_float_ops ex_map ?row latitude_mapping = Inr PNone"
    and "r ''latitude'' = Some PNone" by auto
  with h1 h2 h3 h4 h5 r show ?thesis by blast
qed

text \<open>
  Claim C9. For a mapping that declares \<^verbatim>\<open>depends_on\<close>, when the dependency's
  source code is not a key of the header map, no nulling takes place: the extracted
  value is the one computed from the mapping's own cell, trimmed, emptied to
  \<^verbatim>\<open>None\<close>, transformed and converted.
\<close>

theorem absent_dependency_keeps_value:
  assumes "depends_on fd = Some dep" and "m dep = None"
  shows "extract_field fo m row fd =
           (let idx = get_index m (onspd_code fd) in
            if in_row idx row
            then convert_type fo fd (apply_transform fd (empty_to_none (cell_text row idx)))
            else Inr PNone)"
  using assms
  by (simp add: extract_field_def check_dependency_def get_index_def in_row_def Let_def)

theorem absent_dependency_keeps_value_witness:
  "depends_on latitude_mapping = Some ''osnrth1m''
   \<and> get_csv_column_mapping [''pcds'', ''lat''] ''osnrth1m'' = None
   \<and> extract_field whole_float_ops (get_csv_column_mapping [''pcds'', ''lat''])
        [Some ''SW1A 1AA'', Some ''51''] latitude_mapping = Inr (PFloat 51)"
proof -
  let ?m = "get_csv_column_mapping [''pcds'', ''lat'']"
  let ?row = "[Some ''SW1A 1AA'', Some ''51'']"
  have h1: "depends_on latitude_mapping = Some ''osnrth1m''" by code_simp
  have h2: "?m ''osnrth1m'' = None" by code_simp
  have "extract_field whole_float_ops ?m ?row latitude_mapping =
          (let idx = get_index ?m (onspd_code latitude_mapping) in
            if in_row idx ?row
            then convert_type whole_float_ops latitude_mapping
                   (apply_transform latitude_mapping (empty_to_none (cell_text ?row idx)))
            else Inr PNone)"
    by (rule absent_dependency_keeps_value[of latitude_mapping "''osnrth1m''" ?m, OF h1 h2])
  also have "\<dots> = Inr (PFloat 51)"
    by code_simp
  finally have c: "extract_field whole_float_ops ?m ?row latitude_mapping = Inr (PFloat 51)" .
  from h1 h2 c show ?thesis by (intro conjI)
qed

subsection \<open>The postcode of a kept row\<close>

lemma extract_field_plain:
  "extract_field fo m row (plain c code) =
     Inr (if in_row (get_index m code) row
          then plain_value (empty_to_none (cell_text row (get_index m code))) else PNone)"
  by (simp add: extract_field_def plain_def check_dependency_def apply_transform_def
      convert_type_def plain_value_def Let_def split: option.splits)

lemma extract_field_untyped:
  assumes "ftype fd = None" and "depends_on fd = None" and "m (onspd_code fd) = Some i"
    and "in_row i row" and "empty_to_none (cell_text row i) = Some t"
  shows "extract_field fo m row fd = Inr (plain_value (apply_transform fd (Some t)))"
  using assms
  by (simp add: extract_field_def get_index_def check_dependency_def convert_type_def
      plain_value_def Let_def split: option.splits)

lemma postcode_mapping: "plain ''postcode'' ''pcds'' \<in> set ONSPD_FIELD_MAPPINGS"
  by (simp add: ONSPD_FIELD_MAPPINGS_def)

lemma truthy_plain_value:
  "truthy fo (plain_value v) \<Longrightarrow> \<exists>s. v = Some s \<and> s \<noteq> []"
  by (cases v) (auto simp: plain_value_def)

lemma process_row_postcode:
  assumes "process_row fo self m row = Inr (Some r)"
  shows "in_row (get_index m ''pcds'') row \<and>
         (\<exists>s. empty_to_none (cell_text row (get_index m ''pcds'')) = Some s \<and> s \<noteq> []
              \<and> r ''postcode'' = Some (PStr s))"
proof -
  from process_row_field[OF assms postcode_mapping]
  obtain v where v: "extract_field fo m row (plain ''postcode'' ''pcds'') = Inr v"
    and rv: "r ''postcode'' = Some v"
    by (auto simp: plain_def)
  from assms have "has_postcode fo r" by (rule process_row_Some)
  with rv have tv: "truthy fo v" by (simp add: has_postcode_def row_get_def)
  show ?thesis
  proof (cases "in_row (get_index m ''pcds'') row")
    case True
    with v have "v = plain_value (empty_to_none (cell_text row (get_index m ''pcds'')))"
      by (simp add: extract_field_plain)
    with tv truthy_plain_value[of fo "empty_to_none (cell_text row (get_index m ''pcds''))"]
    obtain s where "empty_to_none (cell_text row (get_index m ''pcds'')) = Some s" "s \<noteq> []"
      "v = PStr s" by (auto simp: plain_value_def)
    with True rv show ?thesis by simp
  next
    case False
    with v have "v = PNone" by (simp add: extract_field_plain)
    with tv show ?thesis by simp
  qed
qed

text \<open>
  Claim C7. Every record in the result of \<^verbatim>\<open>_process_chunk\<close> has a postcode that
  is a non-empty \<^verbatim>\<open>str\<close>: a row whose extracted postcode is \<^verbatim>\<open>None\<close> or empty is
  not appended, so it reaches neither the statistics nor the assembler.
\<close>

theorem output_postcode_nonempty:
  assumes "process_chunk fo self chunk csv_column_mapping = Inr rows" and "r \<in> set rows"
  shows "\<exists>s. r ''postcode'' = Some (PStr s) \<and> s \<noteq> []"
proof -
  let ?m = "case csv_column_mapping of None \<Rightarrow> column_mapping self | Some m \<Rightarrow> m"
  from assms have "\<exists>row \<in> set chunk. process_row fo self ?m row = Inr (Some r)"
    unfolding process_chunk_def by (rule process_rows_member)
  then obtain row where "process_row fo self ?m row = Inr (Some r)" by blast
  from process_row_postcode[OF this] show ?thesis by blast
qed

theorem output_postcode_nonempty_witness:
  "\<exists>r s. process_chunk whole_float_ops ex_processor
            [ex_row ''SW1A 1AA'' ''179645'' None, ex_row ''nan'' ''179645'' None]
            (Some ex_map) = Inr [r]
         \<and> r ''postcode'' = Some (PStr s) \<and> s \<noteq> []"
proof -
  let ?chunk = "[ex_row ''SW1A 1AA'' ''179645'' None, ex_row ''nan'' ''179645'' None]"
  have "case process_chunk whole_float_ops ex_processor ?chunk (Some ex_map) of
          Inr [r] \<Rightarrow> True | _ \<Rightarrow> False"
    by code_simp
  then obtain r where r: "process_chunk whole_float_ops ex_processor ?chunk (Some ex_map) = Inr [r]"
    by (auto split: sum.splits list.splits)
  from output_postcode_nonempty[OF r, of r]
  obtain s where "r ''postcode'' = Some (PStr s)" "s \<noteq> []" by auto
  with r show ?thesis by blast
qed

subsection \<open>A postcode with no space\<close>

lemma set_py_strip: "set (py_strip s) \<subseteq> set s"
  unfolding py_strip_def by (auto dest!: set_dropWhileD)

lemma pc_compact_mapping:
  "(plain ''pc_compact'' ''pcds'')\<lparr>transform := Some compact_transform\<rparr> \<in> set ONSPD_FIELD_MAPPINGS"
  by (simp add: ONSPD_FIELD_MAPPINGS_def)

lemma incode_mapping:
  "(plain ''incode'' ''pcds'')\<lparr>transform := Some incode_transform\<rparr> \<in> set ONSPD_FIELD_MAPPINGS"
  by (simp add: ONSPD_FIELD_MAPPINGS_def)

lemma outcode_mapping:
  "(plain ''outcode'' ''pcds'')\<lparr>transform := Some outcode_transform\<rparr> \<in> set ONSPD_FIELD_MAPPINGS"
  by (simp add: ONSPD_FIELD_MAPPINGS_def)

lemma process_row_transformed:
  assumes kept: "process_row fo self m row = Inr (Some r)"
    and mem: "(plain c ''pcds'')\<lparr>transform := Some t\<rparr> \<in> set ONSPD_FIELD_MAPPINGS"
    and idx: "m ''pcds'' = Some i" and s: "empty_to_none (cell_text row i) = Some s" "s \<noteq> []"
    and inr: "in_row i row"
  shows "r c = Some (case t s of Inl e \<Rightarrow> PNone | Inr s' \<Rightarrow> PStr s')"
proof -
  let ?fd = "(plain c ''pcds'')\<lparr>transform := Some t\<rparr>"
  from process_row_field[OF kept mem]
  obtain v where v: "extract_field fo m row ?fd = Inr v" and rv: "r c = Some v"
    by (auto simp: plain_def)
  have "extract_field fo m row ?fd = Inr (plain_value (apply_transform ?fd (Some s)))"
    by (rule extract_field_untyped[where i = i]) (use idx s inr in \<open>simp_all add: plain_def\<close>)
  with v s(2) have "v = (case t s of Inl e \<Rightarrow> PNone | Inr s' \<Rightarrow> PStr s')"
    by (simp add: apply_transform_def plain_def plain_value_def split: sum.splits)
  with rv show ?thesis by simp
qed

text \<open>
  Claim C8, amended. For a row that chunk processing keeps, whose \<^verbatim>\<open>pcds\<close> cell is
  a \<^verbatim>\<open>str\<close> with no space in it: \<^verbatim>\<open>incode\<close> and \<^verbatim>\<open>outcode\<close> are the empty
  string (not \<^verbatim>\<open>None\<close>), \<^verbatim>\<open>postcode\<close> is the cell with the white space at its
  ends trimmed (\<^verbatim>\<open>str(...).strip()\<close>), and \<^verbatim>\<open>pc_compact\<close> is that trimmed value
  with its spaces removed.
\<close>

theorem no_space_postcode_fields:
  assumes "process_row fo self m row = Inr (Some r)"
    and "m ''pcds'' = Some i" and "in_row i row"
    and "row ! nat i = Some s" and "CHR '' '' \<notin> set s"
  shows "r ''incode'' = Some (PStr []) \<and> r ''outcode'' = Some (PStr [])
       \<and> r ''postcode'' = Some (PStr (py_strip s))
       \<and> r ''pc_compact'' = Some (PStr (remove_spaces (py_strip s)))"
proof -
  have ct: "cell_text row i = py_strip s"
    using assms(4) by (simp add: cell_text_def py_str_def)
  have gi: "get_index m ''pcds'' = i" using assms(2) by (simp add: get_index_def)
  from process_row_postcode[OF assms(1)] gi ct
  obtain t where t: "empty_to_none (py_strip s) = Some t" "t \<noteq> []"
    and post: "r ''postcode'' = Some (PStr t)" by auto
  from t(1) have ts: "t = py_strip s"
    by (simp add: empty_to_none_def split: if_splits)
  with assms(5) set_py_strip[of s] have nosp: "CHR '' '' \<notin> set t" by blast
  from t ct have e: "empty_to_none (cell_text row i) = Some t" by simp
  have "r ''pc_compact'' = Some (case compact_transform t of Inl e \<Rightarrow> PNone | Inr s' \<Rightarrow> PStr s')"
    by (rule process_row_transformed[OF assms(1) pc_compact_mapping assms(2) e t(2) assms(3)])
  with t(2) have compact: "r ''pc_compact'' = Some (PStr (remove_spaces t))"
    by (simp add: compact_transform_def)
  have "r ''incode'' = Some (case incode_transform t of Inl e \<Rightarrow> PNone | Inr s' \<Rightarrow> PStr s')"
    by (rule process_row_transformed[OF assms(1) incode_mapping assms(2) e t(2) assms(3)])
  with nosp have incode: "r ''incode'' = Some (PStr [])"
    by (simp add: incode_transform_def)
  have "r ''outcode'' = Some (case outcode_transform t of Inl e \<Rightarrow> PNone | Inr s' \<Rightarrow> PStr s')"
    by (rule process_row_transformed[OF assms(1) outcode_mapping assms(2) e t(2) assms(3)])
  with nosp have outcode: "r ''outcode'' = Some (PStr [])"
    by (simp add: outcode_transform_def)
  from incode outcode post compact ts show ?thesis by simp
qed

theorem no_space_postcode_fields_witness:
  "ex_map ''pcds'' = Some 0 \<and> in_row 0 (ex_row ex_tab_pcds ''179645'' None)
   \<and> ex_row ex_tab_pcds ''179645'' None ! nat 0 = Some ex_tab_pcds
   \<and> CHR '' '' \<notin> set ex_tab_pcds
   \<and> py_strip ex_tab_pcds = ''SW1A1AA''
   \<and> (\<exists>r. process_row whole_float_ops ex_processor ex_map (ex_row ex_tab_pcds ''179645'' None)
            = Inr (Some r)
          \<and> r ''incode'' = Some (PStr []) \<and> r ''outcode'' = Some (PStr [])
          \<and> r ''postcode'' = Some (PStr ''SW1A1AA'')
          \<and> r ''pc_compact'' = Some (PStr ''SW1A1AA''))"
proof -
  let ?row = "ex_row ex_tab_pcds ''179645'' None"
  have h2: "ex_map ''pcds'' = Some 0" by code_simp
  have h3: "in_row 0 ?row" by code_simp
  have h4: "?row ! nat 0 = Some ex_tab_pcds" by (simp add: ex_row_def)
  have h5: "CHR '' '' \<notin> set ex_tab_pcds" by code_simp
  have st: "py_strip ex_tab_pcds = ''SW1A1AA''" by code_simp
  have rs: "remove_spaces ''SW1A1AA'' = ''SW1A1AA''" by code_simp
  have "case process_row whole_float_ops ex_processor ex_map ?row of
          Inr (Some r) \<Rightarrow> True | _ \<Rightarrow> False"
    by code_simp
  then obtain r where r: "process_row whole_float_ops ex_processor ex_map ?row = Inr (Some r)"
    by (auto split: sum.splits option.splits)
  from no_space_postcode_fields[OF r h2 h3 h4 h5] st rs
  have "r ''incode'' = Some (PStr [])" "r ''outcode'' = Some (PStr [])"
    "r ''postcode'' = Some (PStr ''SW1A1AA'')" "r ''pc_compact'' = Some (PStr ''SW1A1AA'')"
    by simp_all
  with h2 h3 h4 h5 st r show ?thesis by blast
qed

text \<open>
  The claim as stated fails: a kept row whose \<^verbatim>\<open>pcds\<close> cell is \<^verbatim>\<open>SW1A1AA\<close>
  followed by a tab has no space in the cell, and its \<^verbatim>\<open>postcode\<close> is
  \<^verbatim>\<open>SW1A1AA\<close>, not the cell.
\<close>

theorem no_space_postcode_counterexample:
  "ex_row ex_tab_pcds ''179645'' None ! nat 0 = Some ex_tab_pcds
   \<and> CHR '' '' \<notin> set ex_tab_pcds
   \<and> (case process_row whole_float_ops ex_processor ex_map (ex_row ex_tab_pcds ''179645'' None) of
         Inr (Some r) \<Rightarrow> r ''postcode'' = Some (PStr ''SW1A1AA'')
                          \<and> r ''postcode'' \<noteq> Some (PStr ex_tab_pcds)
       | _ \<Rightarrow> False)"
proof -
  have "ex_row ex_tab_pcds ''179645'' None ! nat 0 = Some ex_tab_pcds" by (simp add: ex_row_def)
  moreover have "CHR '' '' \<notin> set ex_tab_pcds" by code_simp
  moreover have "case process_row whole_float_ops ex_processor ex_map
                        (ex_row ex_tab_pcds ''179645'' None) of
         Inr (Some r) \<Rightarrow> r ''postcode'' = Some (PStr ''SW1A1AA'')
                          \<and> r ''postcode'' \<noteq> Some (PStr ex_tab_pcds)
       | _ \<Rightarrow> False"
    by code_simp
  ultimately show ?thesis by blast
qed

subsection \<open>Enrichment\<close>

lemma extracted_dom:
  assumes "extract_fields fo m row ONSPD_FIELD_MAPPINGS Map.empty = Inr r"
  shows "dom r \<inter> set label_fields = {}"
proof -
  from extract_fields_dom[OF assms] have "dom r = column ` set ONSPD_FIELD_MAPPINGS" by simp
  with columns_not_labels show ?thesis by auto
qed

text \<open>
  Claim C6. When \<^verbatim>\<open>_add_human_readable_names\<close> returns, the record differs from
  the one it was given in label fields only: every other key, so every column of
  \<^verbatim>\<open>ONSPD_FIELD_MAPPINGS\<close>, holds the value it held, no key is removed, and every new
  key is a label field. For a record with no label field, as the extractor produces it,
  the enriched record with the label fields taken away is the record itself.
\<close>

theorem enrichment_only_adds_labels:
  assumes "add_human_readable_names fo self r = Inr r'"
  shows "(\<forall>k. k \<notin> set label_fields \<longrightarrow> r' k = r k)
       \<and> dom r \<subseteq> dom r' \<and> dom r' \<subseteq> dom r \<union> set label_fields
       \<and> (\<forall>fd \<in> set ONSPD_FIELD_MAPPINGS. r' (column fd) = r (column fd))
       \<and> (dom r \<inter> set label_fields = {} \<longrightarrow> r' |` (- set label_fields) = r)
       \<and> (\<forall>fo' m row. extract_fields fo' m row ONSPD_FIELD_MAPPINGS Map.empty = Inr r
             \<longrightarrow> r' |` (- set label_fields) = r)"
proof -
  have other: "r' k = r k" if "k \<notin> set label_fields" for k
    using enrich_other[OF assms that] .
  have coded: "r' (column fd) = r (column fd)" if "fd \<in> set ONSPD_FIELD_MAPPINGS" for fd
    using other[OF columns_not_labels[OF that]] .
  have restr: "r' |` (- set label_fields) = r" if d: "dom r \<inter> set label_fields = {}"
  proof
    fix k
    show "(r' |` (- set label_fields)) k = r k"
    proof (cases "k \<in> set label_fields")
      case True
      with d have "r k = None" by auto
      with True show ?thesis by (simp add: restrict_map_def)
    next
      case False
      with other show ?thesis by (simp add: restrict_map_def)
    qed
  qed
  from other coded restr extracted_dom enrich_dom[OF assms] show ?thesis by blast
qed

theorem enrichment_only_adds_labels_witness:
  "\<exists>r'. add_human_readable_names whole_float_ops ex_processor ex_record = Inr r'
        \<and> r' ''country'' = Some (PStr ''England'')
        \<and> r' ''country_code'' = Some (PStr ''E92000001'')
        \<and> r' ''postcode'' = Some (PStr ''SW1A 1AA'')
        \<and> r' |` (- set label_fields) = ex_record"
proof -
  have "case add_human_readable_names whole_float_ops ex_processor ex_record of
          Inr r' \<Rightarrow> r' ''country'' = Some (PStr ''England'') | Inl e \<Rightarrow> False"
    by code_simp
  then obtain r' where r': "add_human_readable_names whole_float_ops ex_processor ex_record = Inr r'"
    and c: "r' ''country'' = Some (PStr ''England'')"
    by (auto split: sum.splits)
  have d: "dom ex_record \<inter> set label_fields = {}"
    by (auto simp: ex_record_def label_fields_def name_mappings_def)
  have n1: "''country_code'' \<notin> set label_fields" by (simp add: label_fields_def name_mappings_def)
  have n2: "''postcode'' \<notin> set label_fields" by (simp add: label_fields_def name_mappings_def)
  have v1: "ex_record ''country_code'' = Some (PStr ''E92000001'')" by (simp add: ex_record_def)
  have v2: "ex_record ''postcode'' = Some (PStr ''SW1A 1AA'')" by (simp add: ex_record_def)
  from enrichment_only_adds_labels[OF r'] d n1 n2 v1 v2
  have "r' ''country_code'' = Some (PStr ''E92000001'')"
    "r' ''postcode'' = Some (PStr ''SW1A 1AA'')"
    "r' |` (- set label_fields) = ex_record"
    by simp_all
  with r' c show ?thesis by blast
qed

subsection \<open>The row loop over a file's lines\<close>

text \<open>
  These lemmas are about the row loop, given which lines parse: the records it computes
  are those of the lines taken one after the other, wherever the chunks are cut. They
  say nothing of what pandas adds above the row loop (see \<open>read_chunk\<close> and
  \<open>process_chunk\<close>).
\<close>

lemma concat_chunks_of: "0 < n \<Longrightarrow> concat (chunks_of n xs) = xs"
proof (induction n xs rule: chunks_of.induct)
  case (1 n xs)
  then show ?case by (subst chunks_of.simps) auto
qed

lemma read_chunk_append:
  "read_chunk (xs @ ys) =
     (case read_chunk xs of
        Inl e \<Rightarrow> Inl e
      | Inr a \<Rightarrow> (case read_chunk ys of Inl e \<Rightarrow> Inl e | Inr b \<Rightarrow> Inr (a @ b)))"
  by (induction xs) (auto split: sum.splits)

lemma process_rows_append:
  "process_rows fo self m (xs @ ys) =
     (case process_rows fo self m xs of
        Inl e \<Rightarrow> Inl e
      | Inr a \<Rightarrow> (case process_rows fo self m ys of Inl e \<Rightarrow> Inl e | Inr b \<Rightarrow> Inr (a @ b)))"
  by (induction xs) (auto split: sum.splits option.splits)

lemma rows_of_lines_Nil: "rows_of_lines fo self m [] = Some []"
  by (simp add: rows_of_lines_def)

lemma rows_of_lines_append:
  "rows_of_lines fo self m (xs @ ys) =
     (case rows_of_lines fo self m xs of
        None \<Rightarrow> None
      | Some a \<Rightarrow> (case rows_of_lines fo self m ys of None \<Rightarrow> None | Some b \<Rightarrow> Some (a @ b)))"
  by (simp add: rows_of_lines_def read_chunk_append process_rows_append split: sum.splits)

lemma chunk_loop_nonempty:
  "chunk_loop fo self m cs = Inr chunks \<Longrightarrow> [] \<notin> set chunks"
  by (induction cs arbitrary: chunks) (auto split: sum.splits if_splits)

lemma chunk_loop_rows:
  "(case chunk_loop fo self m cs of Inl e \<Rightarrow> None | Inr chunks \<Rightarrow> Some (concat chunks)) =
   rows_of_lines fo self m (concat cs)"
proof (induction cs)
  case Nil
  then show ?case by (simp add: rows_of_lines_Nil)
next
  case (Cons c cs)
  have "rows_of_lines fo self m c =
          (case read_chunk c of Inl e \<Rightarrow> None
           | Inr chunk \<Rightarrow> (case process_chunk fo self chunk (Some m) of
                             Inl e \<Rightarrow> None | Inr rs \<Rightarrow> Some rs))"
    by (simp add: rows_of_lines_def process_chunk_def split: sum.splits)
  with Cons.IH[symmetric] show ?case
    by (simp add: rows_of_lines_append split: sum.splits)
qed

lemma concat_Nil_iff: "[] \<notin> set xss \<Longrightarrow> (xss = []) = (concat xss = [])"
  by (cases xss) auto

lemma process_onspd_csv_rows:
  assumes "1 \<le> n"
  shows "map_sum id snd (process_onspd_csv fo self f n) = file_rows fo self f"
proof (cases "file_exists f")
  case False
  then show ?thesis by (simp add: process_onspd_csv_def file_rows_def)
next
  case True
  show ?thesis
  proof (cases "header_line f")
    case (Inl e)
    with True show ?thesis by (simp add: process_onspd_csv_def file_rows_def)
  next
    case (Inr columns)
    let ?m = "get_csv_column_mapping columns"
    let ?cs = "chunks_of (nat n) (data_lines f)"
    from assms have cc: "concat ?cs = data_lines f" by (simp add: concat_chunks_of)
    have rp: "read_and_process fo self ?m f n = chunk_loop fo self ?m ?cs"
      using assms by (simp add: read_and_process_def)
    show ?thesis
    proof (cases "chunk_loop fo self ?m ?cs")
      case (Inl e)
      with chunk_loop_rows[of fo self ?m ?cs] cc
      have "rows_of_lines fo self ?m (data_lines f) = None" by simp
      with True Inr Inl rp show ?thesis
        by (simp add: process_onspd_csv_def file_rows_def)
    next
      case (Inr chunks)
      with chunk_loop_rows[of fo self ?m ?cs] cc
      have r: "rows_of_lines fo self ?m (data_lines f) = Some (concat chunks)" by simp
      from Inr have "[] \<notin> set chunks" by (rule chunk_loop_nonempty)
      then have "(chunks = []) = (concat chunks = [])" by (rule concat_Nil_iff)
      with True \<open>header_line f = Inr columns\<close> Inr rp r show ?thesis
        by (simp add: process_onspd_csv_def file_rows_def)
    qed
  qed
qed

subsection \<open>The directory loop\<close>

lemma outcome_simps [simp]: "outcome (Inl e) = Inl e" "outcome (Inr (lg, x)) = Inr x"
  by (simp_all add: outcome_def)

lemma directory_loop_cong:
  assumes "map (\<lambda>f. outcome (process_onspd_csv fo self f n)) fs =
           map (\<lambda>f. outcome (process_onspd_csv fo self f n)) fs'"
  shows "outcome (directory_loop fo self n fs (lg, ac, st)) =
         outcome (directory_loop fo self n fs' (lg', ac, st))"
  using assms
proof (induction fs arbitrary: fs' lg lg' ac st)
  case Nil
  then show ?case by simp
next
  case (Cons f fs)
  from Cons.prems obtain f' fs'' where fs': "fs' = f' # fs''" by (cases fs') auto
  from Cons.prems fs' have hd: "outcome (process_onspd_csv fo self f n) =
             outcome (process_onspd_csv fo self f' n)"
    and tl: "map (\<lambda>f. outcome (process_onspd_csv fo self f n)) fs =
             map (\<lambda>f. outcome (process_onspd_csv fo self f n)) fs''"
    by simp_all
  show ?case
  proof (cases "process_onspd_csv fo self f n")
    case (Inl e)
    with hd have "process_onspd_csv fo self f' n = Inl e"
      by (cases "process_onspd_csv fo self f' n") (auto simp: outcome_def)
    with Inl fs' show ?thesis by (simp add: outcome_def)
  next
    case (Inr p)
    obtain l rows where p: "p = (l, rows)" by (cases p)
    with hd Inr obtain l' where r': "process_onspd_csv fo self f' n = Inr (l', rows)"
      by (cases "process_onspd_csv fo self f' n") (auto simp: outcome_def)
    show ?thesis
    proof (cases "length rows > 0")
      case True
      with Inr p r' fs' Cons.IH[OF tl, of "lg @ l" "ac @ [rows]" "add_file_stats fo rows st" "lg' @ l'"]
      show ?thesis by simp
    next
      case False
      with Inr p r' fs' Cons.IH[OF tl, of "lg @ l" ac st "lg' @ l'"]
      show ?thesis by simp
    qed
  qed
qed

lemma directory_cong:
  assumes "map (\<lambda>f. outcome (process_onspd_csv fo self f n)) fs =
           map (\<lambda>f. outcome (process_onspd_csv fo self f n)) fs'"
  shows "outcome (process_onspd_csv_directory fo self (Some fs) n) =
         outcome (process_onspd_csv_directory fo self (Some fs') n)"
proof -
  from assms have len: "(fs = []) = (fs' = [])" by (cases fs; cases fs') auto
  from directory_loop_cong[OF assms, of "[]" "[]" initial_stats "[]"]
  have eq: "outcome (directory_loop fo self n fs ([], [], initial_stats)) =
        outcome (directory_loop fo self n fs' ([], [], initial_stats))" .
  show ?thesis
  proof (cases "fs = []")
    case True
    with len show ?thesis by (simp add: process_onspd_csv_directory_def)
  next
    case False
    with len have ne: "fs' \<noteq> []" by simp
    show ?thesis
    proof (cases "directory_loop fo self n fs ([], [], initial_stats)")
      case (Inl e)
      with eq have "directory_loop fo self n fs' ([], [], initial_stats) = Inl e"
        by (cases "directory_loop fo self n fs' ([], [], initial_stats)") (auto simp: outcome_def)
      with Inl False ne show ?thesis by (simp add: process_onspd_csv_directory_def outcome_def)
    next
      case (Inr s)
      obtain lg ac st where s: "s = (lg, ac, st)" by (cases s)
      with eq Inr obtain lg' where
        "directory_loop fo self n fs' ([], [], initial_stats) = Inr (lg', ac, st)"
        by (cases "directory_loop fo self n fs' ([], [], initial_stats)") (auto simp: outcome_def)
      with Inr s False ne show ?thesis by (simp add: process_onspd_csv_directory_def outcome_def)
    qed
  qed
qed

lemma directory_loop_no_rows:
  assumes "list_all (\<lambda>f. map_sum id (length \<circ> snd) (process_onspd_csv fo self f n) = Inr 0) fs"
  shows "\<exists>lg'. directory_loop fo self n fs (lg, ac, st) = Inr (lg', ac, st)"
  using assms
proof (induction fs arbitrary: lg)
  case Nil
  then show ?case by simp
next
  case (Cons f fs)
  from Cons.prems obtain l where "process_onspd_csv fo self f n = Inr (l, [])"
    by (cases "process_onspd_csv fo self f n") auto
  moreover from Cons.prems Cons.IH[of "lg @ l"]
  obtain lg' where "directory_loop fo self n fs (lg @ l, ac, st) = Inr (lg', ac, st)" by auto
  ultimately show ?case by simp
qed

lemma add_file_stats_ok:
  assumes "stats_ok st ac"
  shows "stats_ok (add_file_stats fo rows st) (ac @ [rows])"
proof -
  have "count_active fo rows \<le> int (length rows)" "0 \<le> count_active fo rows"
    "count_with_coordinates fo rows \<le> int (length rows)" "0 \<le> count_with_coordinates fo rows"
    by (simp_all add: count_active_def count_with_coordinates_def)
  with assms show ?thesis
    by (simp add: stats_ok_def add_file_stats_def)
qed

lemma directory_loop_ok:
  assumes "directory_loop fo self n fs (lg, ac, st) = Inr (lg', ac', st')" and "stats_ok st ac"
  shows "stats_ok st' ac'"
  using assms
proof (induction fs arbitrary: lg ac st)
  case Nil
  then show ?case by simp
next
  case (Cons f fs)
  from Cons.prems(1) obtain l rows where r: "process_onspd_csv fo self f n = Inr (l, rows)"
    by (cases "process_onspd_csv fo self f n") auto
  show ?case
  proof (cases "length rows > 0")
    case True
    with Cons.prems(1) r
    have "directory_loop fo self n fs (lg @ l, ac @ [rows], add_file_stats fo rows st) =
            Inr (lg', ac', st')" by simp
    from Cons.IH[OF this add_file_stats_ok[OF Cons.prems(2)]] show ?thesis .
  next
    case False
    with Cons.prems(1) r
    have "directory_loop fo self n fs (lg @ l, ac, st) = Inr (lg', ac', st')" by simp
    from Cons.IH[OF this Cons.prems(2)] show ?thesis .
  qed
qed

lemma initial_stats_ok: "stats_ok initial_stats []"
  by (simp add: stats_ok_def initial_stats_def)

text \<open>
  Claim C10. When \<^verbatim>\<open>process_onspd_csv_directory\<close> returns, its statistics satisfy
  \<^verbatim>\<open>active_postcodes <= total_rows_processed\<close>,
  \<^verbatim>\<open>with_coordinates <= total_rows_processed\<close> and
  \<^verbatim>\<open>terminated_postcodes = total_rows_processed - active_postcodes >= 0\<close>; the total
  is the number of rows of the combined DataFrame.
\<close>

theorem statistics_bounds:
  assumes "process_onspd_csv_directory fo self csv_directory chunk_size = Inr (lg, stats, df)"
  shows "active_postcodes stats \<le> total_rows_processed stats
       \<and> with_coordinates stats \<le> total_rows_processed stats
       \<and> terminated_postcodes stats = total_rows_processed stats - active_postcodes stats
       \<and> 0 \<le> terminated_postcodes stats
       \<and> total_rows_processed stats = int (length df)"
proof -
  from assms obtain fs where d: "csv_directory = Some fs" and ne: "fs \<noteq> []"
    by (auto simp: process_onspd_csv_directory_def split: option.splits if_splits)
  from assms d ne obtain lg0 ac st where
    loop: "directory_loop fo self chunk_size fs ([], [], initial_stats) = Inr (lg0, ac, st)"
    by (auto simp: process_onspd_csv_directory_def split: sum.splits)
  from directory_loop_ok[OF loop initial_stats_ok] have ok: "stats_ok st ac" .
  show ?thesis
  proof (cases "ac = []")
    case True
    with assms d ne loop have "stats = st" "df = []"
      by (simp_all add: process_onspd_csv_directory_def)
    with ok True show ?thesis by (simp add: stats_ok_def)
  next
    case False
    with assms d ne loop have
      "stats = st\<lparr>terminated_postcodes := total_rows_processed st - active_postcodes st\<rparr>"
      "df = concat ac"
      by (simp_all add: process_onspd_csv_directory_def)
    with ok show ?thesis by (simp add: stats_ok_def)
  qed
qed

theorem statistics_bounds_witness:
  "\<exists>lg df. process_onspd_csv_directory whole_float_ops ex_processor (Some [ex_file]) 2 =
      Inr (lg, \<lparr>total_rows_processed = 2, active_postcodes = 2, terminated_postcodes = 0,
                with_coordinates = 1\<rparr>, df)
    \<and> (2::int) \<le> 2 \<and> (1::int) \<le> 2 \<and> (0::int) = 2 - 2 \<and> 2 = int (length df)"
proof -
  let ?st = "\<lparr>total_rows_processed = 2, active_postcodes = 2, terminated_postcodes = 0,
                with_coordinates = 1\<rparr>"
  have "case process_onspd_csv_directory whole_float_ops ex_processor (Some [ex_file]) 2 of
          Inr (lg, stats, df) \<Rightarrow> stats = ?st | Inl e \<Rightarrow> False"
    by code_simp
  then obtain lg df where r:
    "process_onspd_csv_directory whole_float_ops ex_processor (Some [ex_file]) 2 =
       Inr (lg, ?st, df)"
    by (auto split: sum.splits)
  from statistics_bounds[OF r] have "2 = int (length df)" by simp
  with r show ?thesis by auto
qed

subsection \<open>A directory with no CSV file\<close>

text \<open>
  Claim C3, amended. For a directory that exists and holds no CSV file,
  \<^verbatim>\<open>process_onspd_csv_directory\<close> raises ValueError: the guard
  \<^verbatim>\<open>if not csv_files: raise ValueError\<close>. The empty result with the warning
  "No data processed" is what a directory gives that holds at least one CSV file, when
  every file is processed without raising and yields no row.
\<close>

theorem empty_directory_raises:
  "process_onspd_csv_directory fo self (Some []) chunk_size = Inl ValueError
   \<and> (csv_files \<noteq> [] \<longrightarrow>
        list_all (\<lambda>f. map_sum id (length \<circ> snd) (process_onspd_csv fo self f chunk_size) = Inr 0)
          csv_files \<longrightarrow>
        (\<exists>lg. process_onspd_csv_directory fo self (Some csv_files) chunk_size =
                Inr (lg @ [WarnNoDataProcessed], initial_stats, [])))"
proof -
  have "process_onspd_csv_directory fo self (Some []) chunk_size = Inl ValueError"
    by (simp add: process_onspd_csv_directory_def)
  moreover have "\<exists>lg. process_onspd_csv_directory fo self (Some csv_files) chunk_size =
                Inr (lg @ [WarnNoDataProcessed], initial_stats, [])"
    if "csv_files \<noteq> []"
      "list_all (\<lambda>f. map_sum id (length \<circ> snd) (process_onspd_csv fo self f chunk_size) = Inr 0)
          csv_files"
  proof -
    from directory_loop_no_rows[OF that(2), of "[]" "[]" initial_stats]
    obtain lg' where
      "directory_loop fo self chunk_size csv_files ([], [], initial_stats) =
         Inr (lg', [], initial_stats)" by blast
    with that(1) show ?thesis by (simp add: process_onspd_csv_directory_def)
  qed
  ultimately show ?thesis by blast
qed

text \<open>The claim as stated fails: the empty directory raises.\<close>

theorem empty_directory_counterexample:
  "process_onspd_csv_directory whole_float_ops ex_processor (Some []) 2 = Inl ValueError"
  by (simp add: process_onspd_csv_directory_def)

theorem empty_directory_raises_witness:
  "process_onspd_csv_directory whole_float_ops ex_processor (Some []) 2 = Inl ValueError
   \<and> [ex_terminated_file] \<noteq> []
   \<and> list_all (\<lambda>f. map_sum id (length \<circ> snd)
                  (process_onspd_csv whole_float_ops ex_processor f 2) = Inr 0)
        [ex_terminated_file]
   \<and> (\<exists>lg. process_onspd_csv_directory whole_float_ops ex_processor (Some [ex_terminated_file]) 2 =
                Inr (lg @ [WarnNoDataProcessed], initial_stats, []))"
proof -
  have h: "list_all (\<lambda>f. map_sum id (length \<circ> snd)
                  (process_onspd_csv whole_float_ops ex_processor f 2) = Inr 0)
        [ex_terminated_file]"
    by code_simp
  from empty_directory_raises[of whole_float_ops ex_processor 2 "[ex_terminated_file]"] h
  show ?thesis by simp
qed

subsection \<open>A file that cannot be read\<close>

text \<open>
  Claim C4. The \<^verbatim>\<open>try\<close> of \<^verbatim>\<open>process_onspd_csv\<close> covers the chunk loop only; the
  header is read before it. At a directory whose first file is a zero-byte file, reading
  the header raises EmptyDataError, nothing catches it, and the run ends with that
  exception: the second file is never processed. An exception raised while the data
  lines are read is caught: at a directory whose first file has a line that does not
  parse, the error is logged, the file gives no row, and the run returns the two rows
  of the second file.
\<close>

theorem header_error_aborts_run:
  "process_onspd_csv_directory whole_float_ops ex_processor
     (Some [ex_unreadable_file, ex_file]) 2 = Inl EmptyDataError
   \<and> map_sum id (\<lambda>(lg, stats, df). (lg, length df))
       (process_onspd_csv_directory whole_float_ops ex_processor
          (Some [ex_broken_file, ex_file]) 2) =
     Inr ([ErrorProcessing ParserError], 2)"
proof -
  have "process_onspd_csv whole_float_ops ex_processor ex_unreadable_file 2 = Inl EmptyDataError"
    by (simp add: process_onspd_csv_def ex_unreadable_file_def)
  then have "process_onspd_csv_directory whole_float_ops ex_processor
     (Some [ex_unreadable_file, ex_file]) 2 = Inl EmptyDataError"
    by (simp add: process_onspd_csv_directory_def)
  moreover have "map_sum id (\<lambda>(lg, stats, df). (lg, length df))
       (process_onspd_csv_directory whole_float_ops ex_processor
          (Some [ex_broken_file, ex_file]) 2) =
     Inr ([ErrorProcessing ParserError], 2)"
    by code_simp
  ultimately show ?thesis by blast
qed

subsection \<open>Terminated rows\<close>

lemma is_terminated_skipped: "is_terminated m row \<Longrightarrow> process_row fo self m row = Inr None"
  by (simp add: process_row_def)

lemma doterm_is_terminated:
  assumes "m ''doterm'' = Some i" and "in_row i row"
    and "cell_text row i \<noteq> []" and "cell_text row i \<noteq> ''nan''"
  shows "is_terminated m row"
  using assms by (simp add: is_terminated_def get_index_def)

lemma rows_of_lines_skip:
  assumes "process_row fo self m row = Inr None"
  shows "rows_of_lines fo self m (xs @ Inr row # ys) = rows_of_lines fo self m (xs @ ys)"
proof -
  from assms have one: "rows_of_lines fo self m [Inr row] = Some []"
    by (simp add: rows_of_lines_def)
  have "rows_of_lines fo self m (xs @ [Inr row] @ ys) = rows_of_lines fo self m (xs @ ys)"
    unfolding rows_of_lines_append[of fo self m xs] rows_of_lines_append[of fo self m "[Inr row]"]
    using one by (simp split: option.splits)
  then show ?thesis by simp
qed

lemma outcome_map_sum: "outcome r = map_sum id snd r"
  by (cases r) (auto simp: outcome_def)

lemma process_onspd_csv_skip:
  assumes "header_line f = Inr columns" and "data_lines f = xs @ Inr row # ys"
    and "process_row fo self (get_csv_column_mapping columns) row = Inr None"
  shows "outcome (process_onspd_csv fo self f n) =
         outcome (process_onspd_csv fo self (f\<lparr>data_lines := xs @ ys\<rparr>) n)"
proof (cases "1 \<le> n")
  case True
  have "file_rows fo self f = file_rows fo self (f\<lparr>data_lines := xs @ ys\<rparr>)"
    using assms(1,2) rows_of_lines_skip[OF assms(3), of xs ys]
    by (simp add: file_rows_def)
  with True show ?thesis
    by (simp add: outcome_map_sum process_onspd_csv_rows)
next
  case False
  then show ?thesis
    by (simp add: process_onspd_csv_def read_and_process_def outcome_def split: sum.splits)
qed

lemma outcome_run_summary: "outcome a = outcome b \<Longrightarrow> run_summary fo a = run_summary fo b"
  by (cases a; cases b) (auto simp: outcome_def run_summary_def)

text \<open>
  Claim C2, amended. For a row of a file whose header map resolves \<^verbatim>\<open>doterm\<close> to a
  cell of the row that, as a string and trimmed, is not empty and is not \<^verbatim>\<open>'nan'\<close>:
  the row loop skips the row, so it gives no record; the file's result is the result of
  the file without the row; and the combined DataFrame of the run, its active part, and
  the statistics total, active and with-coordinates are those of the run without the
  row.
\<close>

theorem terminated_row_not_counted:
  assumes "header_line f = Inr columns" and "data_lines f = before @ Inr row # after"
    and "get_csv_column_mapping columns ''doterm'' = Some i" and "in_row i row"
    and "cell_text row i \<noteq> []" and "cell_text row i \<noteq> ''nan''"
  shows "process_row fo self (get_csv_column_mapping columns) row = Inr None
       \<and> outcome (process_onspd_csv fo self f n) =
         outcome (process_onspd_csv fo self (f\<lparr>data_lines := before @ after\<rparr>) n)
       \<and> run_summary fo (process_onspd_csv_directory fo self (Some (fs1 @ f # fs2)) n) =
         run_summary fo (process_onspd_csv_directory fo self
           (Some (fs1 @ f\<lparr>data_lines := before @ after\<rparr> # fs2)) n)"
proof -
  let ?m = "get_csv_column_mapping columns"
  let ?f' = "f\<lparr>data_lines := before @ after\<rparr>"
  have skip: "process_row fo self ?m row = Inr None"
    by (rule is_terminated_skipped, rule doterm_is_terminated) (use assms in simp_all)
  have fl: "outcome (process_onspd_csv fo self f n) = outcome (process_onspd_csv fo self ?f' n)"
    using assms(1,2) skip by (rule process_onspd_csv_skip)
  then have "map (\<lambda>f. outcome (process_onspd_csv fo self f n)) (fs1 @ f # fs2) =
             map (\<lambda>f. outcome (process_onspd_csv fo self f n)) (fs1 @ ?f' # fs2)"
    by simp
  then have "outcome (process_onspd_csv_directory fo self (Some (fs1 @ f # fs2)) n) =
             outcome (process_onspd_csv_directory fo self (Some (fs1 @ ?f' # fs2)) n)"
    by (rule directory_cong)
  then have "run_summary fo (process_onspd_csv_directory fo self (Some (fs1 @ f # fs2)) n) =
         run_summary fo (process_onspd_csv_directory fo self (Some (fs1 @ ?f' # fs2)) n)"
    by (rule outcome_run_summary)
  with skip fl show ?thesis by blast
qed

theorem terminated_row_not_counted_witness:
  "header_line ex_file = Inr ex_columns
   \<and> data_lines ex_file =
       [Inr (ex_row ''SW1A 1AA'' ''179645'' None)]
       @ Inr (ex_row ''SW1A 2AA'' ''179645'' (Some ''2020-01-01''))
       # [Inr (ex_row ''EC1A 1BB'' ''0'' None)]
   \<and> get_csv_column_mapping ex_columns ''doterm'' = Some 5
   \<and> cell_text (ex_row ''SW1A 2AA'' ''179645'' (Some ''2020-01-01'')) 5 = ''2020-01-01''
   \<and> process_row whole_float_ops ex_processor (get_csv_column_mapping ex_columns)
        (ex_row ''SW1A 2AA'' ''179645'' (Some ''2020-01-01'')) = Inr None
   \<and> map_sum id (\<lambda>(df, active, total, n_active, n_coords).
         (map (\<lambda>r. r ''postcode'') df, length active, total, n_active, n_coords))
       (run_summary whole_float_ops
          (process_onspd_csv_directory whole_float_ops ex_processor (Some ([] @ ex_file # [])) 2)) =
     Inr ([Some (PStr ''SW1A 1AA''), Some (PStr ''EC1A 1BB'')], 2, 2, 2, 1)"
proof -
  let ?row = "ex_row ''SW1A 2AA'' ''179645'' (Some ''2020-01-01'')"
  let ?before = "[Inr (ex_row ''SW1A 1AA'' ''179645'' None)] :: (py_exn + raw_row) list"
  let ?after = "[Inr (ex_row ''EC1A 1BB'' ''0'' None)] :: (py_exn + raw_row) list"
  let ?proj = "\<lambda>(df :: int flat_record list, active :: int flat_record list,
                  total :: int, n_active :: int, n_coords :: int).
         (map (\<lambda>r. r ''postcode'') df, length active, total, n_active, n_coords)"
  have h1: "header_line ex_file = Inr ex_columns" by (simp add: ex_file_def)
  have h2: "data_lines ex_file = ?before @ Inr ?row # ?after" by (simp add: ex_file_def)
  have h3: "get_csv_column_mapping ex_columns ''doterm'' = Some 5" by code_simp
  have h4: "in_row 5 ?row" by code_simp
  have h5: "cell_text ?row 5 = ''2020-01-01''" by code_simp
  then have h6: "cell_text ?row 5 \<noteq> []" "cell_text ?row 5 \<noteq> ''nan''" by simp_all
  have ev: "map_sum id ?proj
       (run_summary whole_float_ops
          (process_onspd_csv_directory whole_float_ops ex_processor
             (Some ([] @ ex_file\<lparr>data_lines := ?before @ ?after\<rparr> # [])) 2)) =
     Inr ([Some (PStr ''SW1A 1AA''), Some (PStr ''EC1A 1BB'')], 2, 2, 2, 1)"
    by code_simp
  note inst = terminated_row_not_counted[OF h1 h2 h3 h4 h6,
      of whole_float_ops ex_processor 2 "[]" "[]"]
  from inst have skip: "process_row whole_float_ops ex_processor (get_csv_column_mapping ex_columns)
        ?row = Inr None" by blast
  from inst have "run_summary whole_float_ops
          (process_onspd_csv_directory whole_float_ops ex_processor (Some ([] @ ex_file # [])) 2) =
        run_summary whole_float_ops
          (process_onspd_csv_directory whole_float_ops ex_processor
             (Some ([] @ ex_file\<lparr>data_lines := ?before @ ?after\<rparr> # [])) 2)" by blast
  with ev have "map_sum id ?proj
       (run_summary whole_float_ops
          (process_onspd_csv_directory whole_float_ops ex_processor (Some ([] @ ex_file # [])) 2)) =
     Inr ([Some (PStr ''SW1A 1AA''), Some (PStr ''EC1A 1BB'')], 2, 2, 2, 1)"
    by simp
  with h1 h2 h3 h5 skip show ?thesis by blast
qed

text \<open>
  The claim as stated fails twice. A row whose \<^verbatim>\<open>doterm\<close> cell is the text
  \<^verbatim>\<open>nan\<close> is kept, with a null termination date, and passes the active filter. And a
  run over a file with two active rows and one row terminated on 2020-01-01 reports
  \<^verbatim>\<open>terminated_postcodes = 0\<close>: the terminated row is counted nowhere.
\<close>

theorem terminated_row_counterexample:
  "cell_text (ex_row ''SW1A 1AA'' ''179645'' (Some ''nan'')) 5 = ''nan''
   \<and> (case process_row whole_float_ops ex_processor ex_map
              (ex_row ''SW1A 1AA'' ''179645'' (Some ''nan'')) of
         Inr (Some r) \<Rightarrow> r ''postcode'' = Some (PStr ''SW1A 1AA'')
                          \<and> length (active_df whole_float_ops [r]) = 1
       | _ \<Rightarrow> False)
   \<and> cell_text (ex_row ''SW1A 2AA'' ''179645'' (Some ''2020-01-01'')) 5 = ''2020-01-01''
   \<and> map_sum id (fst \<circ> snd)
        (process_onspd_csv_directory whole_float_ops ex_processor (Some [ex_file]) 2) =
      Inr \<lparr>total_rows_processed = 2, active_postcodes = 2, terminated_postcodes = 0,
           with_coordinates = 1\<rparr>"
proof -
  have "cell_text (ex_row ''SW1A 1AA'' ''179645'' (Some ''nan'')) 5 = ''nan''" by code_simp
  moreover have "case process_row whole_float_ops ex_processor ex_map
              (ex_row ''SW1A 1AA'' ''179645'' (Some ''nan'')) of
         Inr (Some r) \<Rightarrow> r ''postcode'' = Some (PStr ''SW1A 1AA'')
                          \<and> length (active_df whole_float_ops [r]) = 1
       | _ \<Rightarrow> False" by code_simp
  moreover have "cell_text (ex_row ''SW1A 2AA'' ''179645'' (Some ''2020-01-01'')) 5 = ''2020-01-01''"
    by code_simp
  moreover have "map_sum id (fst \<circ> snd)
        (process_onspd_csv_directory whole_float_ops ex_processor (Some [ex_file]) 2) =
      Inr \<lparr>total_rows_processed = 2, active_postcodes = 2, terminated_postcodes = 0,
           with_coordinates = 1\<rparr>" by code_simp
  ultimately show ?thesis by blast
qed

end
